theory Spec2Isabelle
  imports Complex_Main "HOL-Library.Word"
begin

unbundle bit_operations_syntax

text \<open>
  A model of the block encoders of QuickCompressDXT.cpp (NVIDIA Texture Tools, branch
  2.0): the 4-colour and punch-through colour encoders, the green channel search, and
  the truncated and interpolated alpha encoders, followed by the properties proved of
  them. Every function keeps the name it has in the source.
\<close>

section \<open>Data model\<close>

text \<open>
  The machine integers of QuickCompressDXT.cpp: \<open>uint8\<close>, \<open>uint16\<close>, \<open>uint\<close> (32 bits)
  and \<open>uint64\<close>. An \<open>int\<close> of the source whose values stay far inside 32 bits (a
  difference of two bytes, a sum of sixteen such differences) is an \<open>int\<close> here.
\<close>

type_synonym uint8 = "8 word"
type_synonym uint16 = "16 word"
type_synonym uint32 = "32 word"
type_synonym uint64 = "64 word"

text \<open>\<open>Color32\<close>: the four 8-bit channels \<open>r\<close>, \<open>g\<close>, \<open>b\<close>, \<open>a\<close> of one pixel.\<close>

record Color32 =
  c_r :: uint8
  c_g :: uint8
  c_b :: uint8
  c_a :: uint8

text \<open>
  \<open>ColorBlock\<close>: \<open>rgba.color(i)\<close> for \<open>i\<close> in \<open>0..15\<close> is \<open>rgba i\<close>. The encoders never
  read another index.
\<close>

type_synonym ColorBlock = "nat \<Rightarrow> Color32"

text \<open>
  Modelled from the spec: \<open>Color16\<close> (declared in nvmath/Color.h) is a union of the 16-bit
  word \<open>u\<close> with the 5:6:5 bit fields: red in bits 11..15, green in bits 5..10 and blue in
  bits 0..4, the positions \<open>roundAndExpand\<close> packs them at. The word is the value; reading
  a field extracts its bits, and assigning a field keeps the low bits of the right-hand
  side that fit and leaves the other fields alone (\<open>take_bit n\<close> keeps the low \<open>n\<close>
  bits, \<open>mask n\<close> is the word of \<open>n\<close> one bits).
\<close>

type_synonym Color16 = uint16

definition Color16_r :: "Color16 \<Rightarrow> int" where
  "Color16_r u = uint (take_bit 5 (drop_bit 11 u))"

definition Color16_g :: "Color16 \<Rightarrow> int" where
  "Color16_g u = uint (take_bit 6 (drop_bit 5 u))"

definition Color16_b :: "Color16 \<Rightarrow> int" where
  "Color16_b u = uint (take_bit 5 u)"

definition set_r :: "Color16 \<Rightarrow> int \<Rightarrow> Color16" where
  "set_r u v = (u AND NOT (push_bit 11 (mask 5))) OR push_bit 11 (take_bit 5 (word_of_int v))"

definition set_g :: "Color16 \<Rightarrow> int \<Rightarrow> Color16" where
  "set_g u v = (u AND NOT (push_bit 5 (mask 6))) OR push_bit 5 (take_bit 6 (word_of_int v))"

definition set_b :: "Color16 \<Rightarrow> int \<Rightarrow> Color16" where
  "set_b u v = (u AND NOT (mask 5)) OR take_bit 5 (word_of_int v)"

text \<open>\<open>BlockDXT1\<close>: the two packed endpoints and the 32-bit index word.\<close>

record BlockDXT1 =
  col0 :: Color16
  col1 :: Color16
  indices :: uint32

text \<open>
  Modelled from the spec: \<open>AlphaBlockDXT5\<close> (declared in nvimage/BlockDXT.h) is a union of
  the 64-bit word \<open>u\<close> with the bit fields \<open>alpha0\<close> (bits 0..7), \<open>alpha1\<close> (bits 8..15) and
  sixteen 3-bit indices, sample \<open>i\<close> at bits \<open>16 + 3 i .. 18 + 3 i\<close>. \<open>index\<close> and
  \<open>setIndex\<close> read and replace one 3-bit field.
\<close>

type_synonym AlphaBlockDXT5 = uint64

definition alpha0 :: "AlphaBlockDXT5 \<Rightarrow> uint8" where
  "alpha0 u = ucast u"

definition alpha1 :: "AlphaBlockDXT5 \<Rightarrow> uint8" where
  "alpha1 u = ucast (drop_bit 8 u)"

definition set_alpha0 :: "AlphaBlockDXT5 \<Rightarrow> uint8 \<Rightarrow> AlphaBlockDXT5" where
  "set_alpha0 u v = (u AND NOT (mask 8)) OR ucast v"

definition set_alpha1 :: "AlphaBlockDXT5 \<Rightarrow> uint8 \<Rightarrow> AlphaBlockDXT5" where
  "set_alpha1 u v = (u AND NOT (push_bit 8 (mask 8))) OR push_bit 8 (ucast v)"

definition index :: "AlphaBlockDXT5 \<Rightarrow> nat \<Rightarrow> nat" where
  "index u i = unat (take_bit 3 (drop_bit (3 * i + 16) u))"

definition setIndex :: "AlphaBlockDXT5 \<Rightarrow> nat \<Rightarrow> nat \<Rightarrow> AlphaBlockDXT5" where
  "setIndex u i v =
     (u AND NOT (push_bit (3 * i + 16) (mask 3))) OR push_bit (3 * i + 16) (take_bit 3 (word_of_nat v))"

section \<open>Green channel: error, indices and the bounded search\<close>

text \<open>Integer division of C: the quotient is truncated towards zero.\<close>

definition cdiv :: "int \<Rightarrow> int \<Rightarrow> int" where
  "cdiv a b = sgn a * sgn b * (\<bar>a\<bar> div \<bar>b\<bar>)"

text \<open>
  \<open>computeGreenError\<close>: the four green palette values are the bit-replicated endpoints
  and their two integer thirds; the error of a sample is its distance to the nearest of
  the four, and the total is summed over the sixteen samples.
\<close>

definition greenSampleError :: "int \<Rightarrow> int \<Rightarrow> int \<Rightarrow> int \<Rightarrow> int \<Rightarrow> int" where
  "greenSampleError p0 p1 p2 p3 green =
     min (min (min \<bar>green - p0\<bar> \<bar>green - p1\<bar>) \<bar>green - p2\<bar>) \<bar>green - p3\<bar>"

definition computeGreenError :: "ColorBlock \<Rightarrow> BlockDXT1 \<Rightarrow> int" where
  "computeGreenError rgba block =
     (let p0 = push_bit 2 (Color16_g (col0 block)) OR drop_bit 4 (Color16_g (col0 block));
          p1 = push_bit 2 (Color16_g (col1 block)) OR drop_bit 4 (Color16_g (col1 block));
          p2 = cdiv (2 * p0 + p1) 3;
          p3 = cdiv (2 * p1 + p0) 3
      in fold (\<lambda>i totalError. totalError + greenSampleError p0 p1 p2 p3 (uint (c_g (rgba i))))
           [0..<16] 0)"

text \<open>
  The branch-free selection of \<open>computeGreenIndices\<close> and \<open>computeIndices4\<close>: five
  comparisons \<open>b0..b4\<close> of the four distances, combined into the 2-bit index
  \<open>x2 | ((x0 | x1) << 1)\<close>.
\<close>

definition select4 :: "bool \<Rightarrow> bool \<Rightarrow> bool \<Rightarrow> bool \<Rightarrow> bool \<Rightarrow> uint32" where
  "select4 b0 b1 b2 b3 b4 =
     (let x0 = of_bool b1 AND of_bool b2;
          x1 = of_bool b0 AND of_bool b3;
          x2 = of_bool b0 AND of_bool b4
      in x2 OR push_bit 1 (x0 OR x1))"

definition computeGreenIndices :: "ColorBlock \<Rightarrow> (nat \<Rightarrow> Color32) \<Rightarrow> uint32" where
  "computeGreenIndices rgba palette =
     (let color0 = uint (c_g (palette 0));
          color1 = uint (c_g (palette 1));
          color2 = uint (c_g (palette 2));
          color3 = uint (c_g (palette 3))
      in fold (\<lambda>i indices.
           let color = uint (c_g (rgba i));
               d0 = \<bar>color0 - color\<bar>;
               d1 = \<bar>color1 - color\<bar>;
               d2 = \<bar>color2 - color\<bar>;
               d3 = \<bar>color3 - color\<bar>
           in indices OR push_bit (2 * i) (select4 (d0 > d3) (d1 > d2) (d0 > d2) (d1 > d3) (d2 > d3)))
           [0..<16] 0)"

text \<open>
  The state of the search loops of \<open>compressDXT1G\<close>: the block whose green fields are
  overwritten with each candidate, and \<open>besterror\<close>, \<open>bestg0\<close>, \<open>bestg1\<close>.
\<close>

type_synonym greenSearch = "BlockDXT1 \<times> int \<times> int \<times> int"

definition greenCandidate :: "ColorBlock \<Rightarrow> int \<Rightarrow> int \<Rightarrow> int \<Rightarrow> int \<Rightarrow> greenSearch \<Rightarrow> greenSearch" where
  "greenCandidate rgba ming maxg g0 g1 s =
     (case s of (block, besterror, bestg0, bestg1) \<Rightarrow>
        if (maxg - g0) + (g1 - ming) > besterror then s
        else
          let block' = block\<lparr>col0 := set_g (col0 block) g0, col1 := set_g (col1 block) g1\<rparr>;
              error = computeGreenError rgba block'
          in if error < besterror then (block', error, g0, g1)
             else (block', besterror, bestg0, bestg1))"

definition greenSearchLoop :: "ColorBlock \<Rightarrow> int \<Rightarrow> int \<Rightarrow> greenSearch \<Rightarrow> greenSearch" where
  "greenSearchLoop rgba ming maxg s =
     fold (\<lambda>g0 s. fold (\<lambda>g1 s. greenCandidate rgba ming maxg g0 g1 s) [ming..g0 - 5] s)
       [ming + 5..maxg - 1] s"

text \<open>\<open>ming\<close> and \<open>maxg\<close>: the smallest and largest 6-bit green \<open>g >> 2\<close> of the block.\<close>

definition greenMinMax :: "ColorBlock \<Rightarrow> uint8 \<times> uint8" where
  "greenMinMax rgba =
     fold (\<lambda>i (ming, maxg).
        let green = drop_bit 2 (c_g (rgba i)) in (min ming green, max maxg green))
       [0..<16] (63, 0)"

text \<open>
  \<open>compressDXT1G\<close>. \<open>BlockDXT1::evaluatePalette\<close> is not part of the file and is a
  parameter, a function of the two endpoints: \<open>evaluatePalette c0 c1 p\<close> is entry \<open>p\<close>
  of the array it fills. Only the index word depends on it.
\<close>

definition compressDXT1G ::
  "(Color16 \<Rightarrow> Color16 \<Rightarrow> nat \<Rightarrow> Color32) \<Rightarrow> ColorBlock \<Rightarrow> BlockDXT1 \<Rightarrow> BlockDXT1" where
  "compressDXT1G evaluatePalette rgba block0 =
     (let (ming, maxg) = greenMinMax rgba;
          block1 = block0\<lparr>col0 := set_r (col0 block0) 31\<rparr>;
          block2 = block1\<lparr>col1 := set_r (col1 block1) 31\<rparr>;
          block3 = block2\<lparr>col0 := set_g (col0 block2) (uint maxg)\<rparr>;
          block4 = block3\<lparr>col1 := set_g (col1 block3) (uint ming)\<rparr>;
          block5 = block4\<lparr>col0 := set_b (col0 block4) 0\<rparr>;
          block6 = block5\<lparr>col1 := set_b (col1 block5) 0\<rparr>;
          block7 =
            (if uint maxg - uint ming > 4 then
               (case greenSearchLoop rgba (uint ming) (uint maxg)
                       (block6, computeGreenError rgba block6, uint maxg, uint ming) of
                  (block, besterror, bestg0, bestg1) \<Rightarrow>
                    block\<lparr>col0 := set_g (col0 block) bestg0, col1 := set_g (col1 block) bestg1\<rparr>)
             else block6)
      in block7\<lparr>indices := computeGreenIndices rgba (evaluatePalette (col0 block7) (col1 block7))\<rparr>)"

section \<open>Alpha ramp: nearest-of-8 assignment\<close>

text \<open>
  The inner scan of \<open>computeAlphaIndices\<close> for one sample: \<open>besterror\<close> starts at
  \<open>256 * 256\<close> and \<open>best\<close> at 8; a palette entry replaces them when its squared difference
  is strictly smaller.
\<close>

definition alphaScan :: "(nat \<Rightarrow> uint8) \<Rightarrow> uint8 \<Rightarrow> nat \<times> nat" where
  "alphaScan alphas alpha =
     fold (\<lambda>p (besterror, best).
        let d = uint (alphas p) - uint alpha;
            error = nat (d * d)
        in if error < besterror then (error, p) else (besterror, best))
       [0..<8] (256 * 256, 8)"

text \<open>
  \<open>computeAlphaIndices\<close>: returns the total error and the block with every index
  replaced. \<open>AlphaBlockDXT5::evaluatePalette\<close> is not part of the file and is a
  parameter, a function of the two endpoints: \<open>evaluatePalette a0 a1 p\<close> is entry \<open>p\<close>
  of the array it fills.
\<close>

definition computeAlphaIndices ::
  "(uint8 \<Rightarrow> uint8 \<Rightarrow> nat \<Rightarrow> uint8) \<Rightarrow> ColorBlock \<Rightarrow> AlphaBlockDXT5 \<Rightarrow> nat \<times> AlphaBlockDXT5" where
  "computeAlphaIndices evaluatePalette rgba block =
     (let alphas = evaluatePalette (alpha0 block) (alpha1 block)
      in fold (\<lambda>i (totalError, block).
           case alphaScan alphas (c_a (rgba i)) of
             (besterror, best) \<Rightarrow> (totalError + besterror, setIndex block i best))
           [0..<16] (0, block))"

section \<open>Floating point\<close>

text \<open>
  The \<open>float\<close> of the source is a type parameter \<open>'f\<close>. Its arithmetic and its
  comparisons are the operations \<open>+\<close>, \<open>-\<close>, \<open>*\<close>, \<open>/\<close>, \<open><\<close> and \<open>\<le>\<close> of \<open>'f\<close>, about
  which nothing is assumed: a theorem stated for every \<open>'f\<close> holds whatever the
  hardware computes, rounding, infinities and not-a-number included. The remaining
  operations are the fields of a record:
  \<^item> \<open>fp q\<close>: the \<open>float\<close> of the literal or of the integer \<open>q\<close> (\<open>0.5f\<close>, \<open>float(r)\<close>,
    an integer operand converted by the usual arithmetic conversions);
  \<^item> \<open>to_uint x\<close>: the cast \<open>uint(x)\<close>;
  \<^item> \<open>nv_equal x y\<close>: \<open>equal(x, y)\<close> of nvmath, the comparison up to a tolerance, which
    is not part of the file.
\<close>

record 'f floats =
  fp :: "rat \<Rightarrow> 'f"
  to_uint :: "'f \<Rightarrow> uint32"
  nv_equal :: "'f \<Rightarrow> 'f \<Rightarrow> bool"

text \<open>
  The exact unit: \<open>float\<close> is \<open>rat\<close>, no operation rounds, and a quotient by 0 is 0,
  as every quotient by 0 in HOL. \<open>uint(x)\<close> truncates towards zero, and \<open>equal\<close>, which
  the spec describes as a test for a numerically zero difference, has the tolerance
  \<open>0.0001\<close>. It evaluates concrete blocks whose arithmetic is exact in binary32 as well;
  the unit that rounds is \<open>ieee32\<close>, defined further down.
\<close>

definition exact :: "rat floats" where
  "exact = \<lparr>fp = (\<lambda>q. q),
            to_uint = (\<lambda>x. word_of_int (if 0 \<le> x then \<lfloor>x\<rfloor> else \<lceil>x\<rceil>)),
            nv_equal = (\<lambda>x y. \<bar>x - y\<bar> \<le> 1 / 10000)\<rparr>"

text \<open>\<open>float(w)\<close> for a byte and for a \<open>uint\<close>.\<close>

definition float8 :: "'f floats \<Rightarrow> uint8 \<Rightarrow> 'f" where
  "float8 F w = fp F (of_nat (unat w))"

definition float32 :: "'f floats \<Rightarrow> uint32 \<Rightarrow> 'f" where
  "float32 F w = fp F (of_nat (unat w))"

text \<open>
  Modelled from the spec: \<open>Vector3\<close> and its componentwise operations, \<open>clamp\<close>, \<open>lerp\<close>
  and \<open>dot\<close> (nvmath/Vector.h and nvcore, not part of the file). \<open>min\<close> and \<open>max\<close> give
  the smaller and the larger of two values, \<open>clamp x a b\<close> is \<open>min (max x a) b\<close>.
\<close>

record 'f Vector3 =
  vx :: 'f
  vy :: 'f
  vz :: 'f

definition Vec :: "'f \<Rightarrow> 'f \<Rightarrow> 'f \<Rightarrow> 'f Vector3" where
  "Vec x y z = \<lparr>vx = x, vy = y, vz = z\<rparr>"

definition vmap2 :: "('f \<Rightarrow> 'f \<Rightarrow> 'f) \<Rightarrow> 'f Vector3 \<Rightarrow> 'f Vector3 \<Rightarrow> 'f Vector3" where
  "vmap2 f v w = Vec (f (vx v) (vx w)) (f (vy v) (vy w)) (f (vz v) (vz w))"

definition vmap :: "('f \<Rightarrow> 'f) \<Rightarrow> 'f Vector3 \<Rightarrow> 'f Vector3" where
  "vmap f v = Vec (f (vx v)) (f (vy v)) (f (vz v))"

definition clamp :: "'f::ord \<Rightarrow> 'f \<Rightarrow> 'f \<Rightarrow> 'f" where
  "clamp x a b = min (max x a) b"

definition dot :: "'f::{plus,times} Vector3 \<Rightarrow> 'f Vector3 \<Rightarrow> 'f" where
  "dot v w = vx v * vx w + vy v * vy w + vz v * vz w"

definition lerp :: "'f::{plus,minus,times} floats \<Rightarrow> 'f Vector3 \<Rightarrow> 'f Vector3 \<Rightarrow> 'f \<Rightarrow> 'f Vector3" where
  "lerp F v w t = (let s = fp F 1 - t in vmap2 (\<lambda>a b. a * s + t * b) v w)"

section \<open>Sample extraction and endpoint estimation\<close>

text \<open>
  The array \<open>Vector3 block[16]\<close> is a list. \<open>extractColorBlockRGBA\<close> fills its first
  \<open>num\<close> entries, the only ones read afterwards; the list holds exactly those.
\<close>

definition extractColorBlockRGB :: "'f floats \<Rightarrow> ColorBlock \<Rightarrow> 'f Vector3 list" where
  "extractColorBlockRGB F rgba =
     map (\<lambda>i. let c = rgba i in Vec (float8 F (c_r c)) (float8 F (c_g c)) (float8 F (c_b c)))
       [0..<16]"

definition extractColorBlockRGBA :: "'f floats \<Rightarrow> ColorBlock \<Rightarrow> nat \<times> 'f Vector3 list" where
  "extractColorBlockRGBA F rgba =
     (let block = fold (\<lambda>i block.
            let c = rgba i
            in if 127 < c_a c
               then block @ [Vec (float8 F (c_r c)) (float8 F (c_g c)) (float8 F (c_b c))]
               else block) [0..<16] []
      in (length block, block))"

definition findMinMaxColorsBox ::
  "'f::ord floats \<Rightarrow> 'f Vector3 list \<Rightarrow> nat \<Rightarrow> 'f Vector3 \<times> 'f Vector3" where
  "findMinMaxColorsBox F block num =
     fold (\<lambda>i (maxColor, minColor). (vmap2 max maxColor (block ! i), vmap2 min minColor (block ! i)))
       [0..<num] (Vec (fp F 0) (fp F 0) (fp F 0), Vec (fp F 255) (fp F 255) (fp F 255))"

definition selectDiagonal ::
  "'f::{plus,minus,times,ord} floats \<Rightarrow> 'f Vector3 list \<Rightarrow> nat \<Rightarrow> 'f Vector3 \<times> 'f Vector3
     \<Rightarrow> 'f Vector3 \<times> 'f Vector3" where
  "selectDiagonal F block num mm =
     (case mm of (maxColor, minColor) \<Rightarrow>
        let center = vmap (\<lambda>c. c * fp F (1 / 2)) (vmap2 (+) maxColor minColor);
            covariance = fold (\<lambda>i (cx, cy).
                let t = vmap2 (-) (block ! i) center
                in (cx + vx t * vz t, cy + vy t * vz t)) [0..<num] (fp F 0, fp F 0);
            x0 = vx maxColor;
            y0 = vy maxColor;
            x1 = vx minColor;
            y1 = vy minColor;
            (x0, x1) = (if fst covariance < fp F 0 then (x1, x0) else (x0, x1));
            (y0, y1) = (if snd covariance < fp F 0 then (y1, y0) else (y0, y1))
        in (Vec x0 y0 (vz maxColor), Vec x1 y1 (vz minColor)))"

definition insetBBox ::
  "'f::{plus,minus,times,inverse,ord} floats \<Rightarrow> 'f Vector3 \<times> 'f Vector3 \<Rightarrow> 'f Vector3 \<times> 'f Vector3" where
  "insetBBox F mm =
     (case mm of (maxColor, minColor) \<Rightarrow>
        let inset = vmap (\<lambda>c. c / fp F 16 - (fp F 8 / fp F 255) / fp F 16) (vmap2 (-) maxColor minColor)
        in (vmap (\<lambda>c. clamp c (fp F 0) (fp F 255)) (vmap2 (-) maxColor inset),
            vmap (\<lambda>c. clamp c (fp F 0) (fp F 255)) (vmap2 (+) minColor inset)))"

section \<open>Quantization and expansion\<close>

text \<open>
  \<open>roundAndExpand\<close> returns the packed word and the new value of \<open>*v\<close>. \<open>quantize F n c\<close>
  is \<open>uint(clamp(c * (n / 255.0f), 0.0f, n) + 0.5f)\<close>.
\<close>

definition quantize :: "'f::{plus,times,inverse,ord} floats \<Rightarrow> rat \<Rightarrow> 'f \<Rightarrow> uint32" where
  "quantize F n c = to_uint F (clamp (c * (fp F n / fp F 255)) (fp F 0) (fp F n) + fp F (1 / 2))"

definition roundAndExpand ::
  "'f::{plus,times,inverse,ord} floats \<Rightarrow> 'f Vector3 \<Rightarrow> uint16 \<times> 'f Vector3" where
  "roundAndExpand F v =
     (let r = quantize F 31 (vx v);
          g = quantize F 63 (vy v);
          b = quantize F 31 (vz v);
          w = ucast (push_bit 11 r OR push_bit 5 g OR b);
          r = push_bit 3 r OR drop_bit 2 r;
          g = push_bit 2 g OR drop_bit 4 g;
          b = push_bit 3 b OR drop_bit 2 b
      in (w, Vec (float32 F r) (float32 F g) (float32 F b)))"

section \<open>Palette assignment\<close>

definition colorDistance :: "'f::{plus,minus,times} Vector3 \<Rightarrow> 'f Vector3 \<Rightarrow> 'f" where
  "colorDistance c0 c1 = dot (vmap2 (-) c0 c1) (vmap2 (-) c0 c1)"

definition computeIndices4 ::
  "'f::{plus,minus,times,inverse,ord} floats \<Rightarrow> 'f Vector3 list \<Rightarrow> 'f Vector3 \<Rightarrow> 'f Vector3 \<Rightarrow> uint32" where
  "computeIndices4 F block maxColor minColor =
     (let palette0 = maxColor;
          palette1 = minColor;
          palette2 = lerp F palette0 palette1 (fp F 1 / fp F 3);
          palette3 = lerp F palette0 palette1 (fp F 2 / fp F 3)
      in fold (\<lambda>i indices.
           let d0 = colorDistance palette0 (block ! i);
               d1 = colorDistance palette1 (block ! i);
               d2 = colorDistance palette2 (block ! i);
               d3 = colorDistance palette3 (block ! i)
           in indices OR push_bit (2 * i) (select4 (d0 > d3) (d1 > d2) (d0 > d2) (d1 > d3) (d2 > d3)))
           [0..<16] 0)"

definition computeIndices3 ::
  "'f::{plus,minus,times,ord} floats \<Rightarrow> ColorBlock \<Rightarrow> 'f Vector3 \<Rightarrow> 'f Vector3 \<Rightarrow> uint32" where
  "computeIndices3 F rgba maxColor minColor =
     (let palette0 = minColor;
          palette1 = maxColor;
          palette2 = vmap (\<lambda>c. c * fp F (1 / 2)) (vmap2 (+) palette0 palette1)
      in fold (\<lambda>i indices.
           let c = rgba i;
               color = Vec (float8 F (c_r c)) (float8 F (c_g c)) (float8 F (c_b c));
               d0 = colorDistance palette0 color;
               d1 = colorDistance palette1 color;
               d2 = colorDistance palette2 color;
               idx = (if c_a c < 128 then 3
                      else if d0 < d1 \<and> d0 < d2 then 0
                      else if d1 < d2 then 1
                      else 2)
           in indices OR push_bit (2 * i) idx)
           [0..<16] 0)"

section \<open>Least-squares refinement of the colour endpoints\<close>

text \<open>
  The five sums of \<open>optimizeEndPoints4\<close>: \<open>alpha2_sum\<close>, \<open>beta2_sum\<close>, \<open>alphabeta_sum\<close>,
  \<open>alphax_sum\<close> and \<open>betax_sum\<close>, accumulated over the sixteen samples.
\<close>

definition sums4 ::
  "'f::{plus,minus,times,inverse} floats \<Rightarrow> 'f Vector3 list \<Rightarrow> uint32
     \<Rightarrow> 'f \<times> 'f \<times> 'f \<times> 'f Vector3 \<times> 'f Vector3" where
  "sums4 F block indices' =
     fold (\<lambda>i (alpha2_sum, beta2_sum, alphabeta_sum, alphax_sum, betax_sum).
        let bits = drop_bit (2 * i) indices';
            beta = float32 F (bits AND 1);
            beta = (if bits AND 2 \<noteq> 0 then (fp F 1 + beta) / fp F 3 else beta);
            alpha = fp F 1 - beta
        in (alpha2_sum + alpha * alpha,
            beta2_sum + beta * beta,
            alphabeta_sum + alpha * beta,
            vmap2 (+) alphax_sum (vmap (\<lambda>c. alpha * c) (block ! i)),
            vmap2 (+) betax_sum (vmap (\<lambda>c. beta * c) (block ! i))))
       [0..<16]
       (fp F 0, fp F 0, fp F 0, Vec (fp F 0) (fp F 0) (fp F 0), Vec (fp F 0) (fp F 0) (fp F 0))"

definition denom4 :: "'f::{plus,minus,times,inverse} floats \<Rightarrow> 'f Vector3 list \<Rightarrow> uint32 \<Rightarrow> 'f" where
  "denom4 F block indices' =
     (case sums4 F block indices' of
        (alpha2_sum, beta2_sum, alphabeta_sum, alphax_sum, betax_sum) \<Rightarrow>
          alpha2_sum * beta2_sum - alphabeta_sum * alphabeta_sum)"

definition optimizeEndPoints4 ::
  "'f::{plus,minus,times,inverse,ord} floats \<Rightarrow> 'f Vector3 list \<Rightarrow> BlockDXT1 \<Rightarrow> BlockDXT1" where
  "optimizeEndPoints4 F block dxtBlock =
     (case sums4 F block (indices dxtBlock) of
        (alpha2_sum, beta2_sum, alphabeta_sum, alphax_sum, betax_sum) \<Rightarrow>
          let denom = denom4 F block (indices dxtBlock)
          in if nv_equal F denom (fp F 0) then dxtBlock
             else
               let factor = fp F 1 / denom;
                   a = vmap (\<lambda>c. c * factor)
                         (vmap2 (-) (vmap (\<lambda>c. c * beta2_sum) alphax_sum)
                                    (vmap (\<lambda>c. c * alphabeta_sum) betax_sum));
                   b = vmap (\<lambda>c. c * factor)
                         (vmap2 (-) (vmap (\<lambda>c. c * alpha2_sum) betax_sum)
                                    (vmap (\<lambda>c. c * alphabeta_sum) alphax_sum));
                   a = vmap (\<lambda>c. clamp c (fp F 0) (fp F 255)) a;
                   b = vmap (\<lambda>c. clamp c (fp F 0) (fp F 255)) b;
                   (color0, a) = roundAndExpand F a;
                   (color1, b) = roundAndExpand F b;
                   (a, b, color0, color1) =
                     (if color0 < color1 then (b, a, color1, color0) else (a, b, color0, color1))
               in dxtBlock\<lparr>col0 := color0, col1 := color1,
                             indices := computeIndices4 F block a b\<rparr>)"

section \<open>The colour encoders\<close>

text \<open>
  Each encoder takes the block that its pointer argument refers to and returns the block
  it leaves there. The two overloads of \<open>compressDXT1\<close> and of \<open>compressDXT1a\<close> are told
  apart by the suffix \<open>_Color32\<close> of the single-colour one.

  The tables \<open>OMatch5\<close> and \<open>OMatch6\<close> (SingleColorLookup.h) are not part of the file and
  are parameters: \<open>OMatch5 v k\<close> is \<open>OMatch5[v][k]\<close>.
\<close>

definition compressDXT1_Color32 ::
  "(nat \<Rightarrow> nat \<Rightarrow> uint8) \<Rightarrow> (nat \<Rightarrow> nat \<Rightarrow> uint8) \<Rightarrow> Color32 \<Rightarrow> BlockDXT1 \<Rightarrow> BlockDXT1" where
  "compressDXT1_Color32 OMatch5 OMatch6 c dxtBlock0 =
     (let dxtBlock = dxtBlock0\<lparr>col0 := set_r (col0 dxtBlock0) (uint (OMatch5 (unat (c_r c)) 0))\<rparr>;
          dxtBlock = dxtBlock\<lparr>col0 := set_g (col0 dxtBlock) (uint (OMatch6 (unat (c_g c)) 0))\<rparr>;
          dxtBlock = dxtBlock\<lparr>col0 := set_b (col0 dxtBlock) (uint (OMatch5 (unat (c_b c)) 0))\<rparr>;
          dxtBlock = dxtBlock\<lparr>col1 := set_r (col1 dxtBlock) (uint (OMatch5 (unat (c_r c)) 1))\<rparr>;
          dxtBlock = dxtBlock\<lparr>col1 := set_g (col1 dxtBlock) (uint (OMatch6 (unat (c_g c)) 1))\<rparr>;
          dxtBlock = dxtBlock\<lparr>col1 := set_b (col1 dxtBlock) (uint (OMatch5 (unat (c_b c)) 1))\<rparr>;
          dxtBlock = dxtBlock\<lparr>indices := 0xaaaaaaaa\<rparr>
      in if col0 dxtBlock < col1 dxtBlock
         then dxtBlock\<lparr>col0 := col1 dxtBlock, col1 := col0 dxtBlock,
                       indices := indices dxtBlock XOR 0x55555555\<rparr>
         else dxtBlock)"

definition compressDXT1 ::
  "'f::{plus,minus,times,inverse,ord} floats \<Rightarrow> ColorBlock \<Rightarrow> BlockDXT1 \<Rightarrow> BlockDXT1" where
  "compressDXT1 F rgba dxtBlock =
     (let block = extractColorBlockRGB F rgba;
          mm = findMinMaxColorsBox F block 16;
          mm = selectDiagonal F block 16 mm;
          (maxColor, minColor) = insetBBox F mm;
          (color0, maxColor) = roundAndExpand F maxColor;
          (color1, minColor) = roundAndExpand F minColor;
          (maxColor, minColor, color0, color1) =
            (if color0 < color1 then (minColor, maxColor, color1, color0)
             else (maxColor, minColor, color0, color1));
          dxtBlock = dxtBlock\<lparr>col0 := color0, col1 := color1,
                                indices := computeIndices4 F block maxColor minColor\<rparr>
      in optimizeEndPoints4 F block dxtBlock)"

definition compressDXT1a_Color32 ::
  "(nat \<Rightarrow> nat \<Rightarrow> uint8) \<Rightarrow> (nat \<Rightarrow> nat \<Rightarrow> uint8) \<Rightarrow> Color32 \<Rightarrow> BlockDXT1 \<Rightarrow> BlockDXT1" where
  "compressDXT1a_Color32 OMatch5 OMatch6 rgba dxtBlock =
     (if c_a rgba = 0
      then dxtBlock\<lparr>col0 := 0, col1 := 0, indices := 0xFFFFFFFF\<rparr>
      else compressDXT1_Color32 OMatch5 OMatch6 rgba dxtBlock)"

text \<open>
  \<open>ColorBlock::hasAlpha\<close> is not part of the file and is a parameter: the punch-through
  branch of \<open>compressDXT1a\<close> is taken on the blocks where it returns true.
\<close>

definition compressDXT1a ::
  "'f::{plus,minus,times,inverse,ord} floats \<Rightarrow> (ColorBlock \<Rightarrow> bool) \<Rightarrow> ColorBlock \<Rightarrow> BlockDXT1
     \<Rightarrow> BlockDXT1" where
  "compressDXT1a F hasAlpha rgba dxtBlock =
     (if \<not> hasAlpha rgba then compressDXT1 F rgba dxtBlock
      else
        let (num, block) = extractColorBlockRGBA F rgba;
            mm = findMinMaxColorsBox F block num;
            mm = selectDiagonal F block num mm;
            (maxColor, minColor) = insetBBox F mm;
            (color0, maxColor) = roundAndExpand F maxColor;
            (color1, minColor) = roundAndExpand F minColor;
            (maxColor, minColor, color0, color1) =
              (if color0 < color1 then (minColor, maxColor, color1, color0)
               else (maxColor, minColor, color0, color1))
        in dxtBlock\<lparr>col0 := color1, col1 := color0,
                      indices := computeIndices3 F rgba maxColor minColor\<rparr>)"

section \<open>Least-squares refinement of the alpha endpoints\<close>

definition sums8 ::
  "'f::{plus,minus,times,inverse} floats \<Rightarrow> ColorBlock \<Rightarrow> AlphaBlockDXT5 \<Rightarrow> 'f \<times> 'f \<times> 'f \<times> 'f \<times> 'f" where
  "sums8 F rgba block =
     fold (\<lambda>i (alpha2_sum, beta2_sum, alphabeta_sum, alphax_sum, betax_sum).
        let idx = index block i;
            alpha = (if idx < 2 then fp F 1 - fp F (of_nat idx)
                     else (fp F 8 - fp F (of_nat idx)) / fp F 7);
            beta = fp F 1 - alpha
        in (alpha2_sum + alpha * alpha,
            beta2_sum + beta * beta,
            alphabeta_sum + alpha * beta,
            alphax_sum + alpha * float8 F (c_a (rgba i)),
            betax_sum + beta * float8 F (c_a (rgba i))))
       [0..<16] (fp F 0, fp F 0, fp F 0, fp F 0, fp F 0)"

definition denom8 :: "'f::{plus,minus,times,inverse} floats \<Rightarrow> ColorBlock \<Rightarrow> AlphaBlockDXT5 \<Rightarrow> 'f" where
  "denom8 F rgba block =
     (case sums8 F rgba block of
        (alpha2_sum, beta2_sum, alphabeta_sum, alphax_sum, betax_sum) \<Rightarrow>
          alpha2_sum * beta2_sum - alphabeta_sum * alphabeta_sum)"

text \<open>The two index loops of \<open>optimizeAlpha8\<close>: the flip after a swap, and the reset to 0.\<close>

definition flipIndices :: "AlphaBlockDXT5 \<Rightarrow> AlphaBlockDXT5" where
  "flipIndices block =
     fold (\<lambda>i block.
        let idx = index block i
        in if idx < 2 then setIndex block i (1 - idx) else setIndex block i (9 - idx))
       [0..<16] block"

definition zeroIndices :: "AlphaBlockDXT5 \<Rightarrow> AlphaBlockDXT5" where
  "zeroIndices block = fold (\<lambda>i block. setIndex block i 0) [0..<16] block"

definition optimizeAlpha8 ::
  "'f::{plus,minus,times,inverse,ord} floats \<Rightarrow> ColorBlock \<Rightarrow> AlphaBlockDXT5 \<Rightarrow> AlphaBlockDXT5" where
  "optimizeAlpha8 F rgba block =
     (case sums8 F rgba block of
        (alpha2_sum, beta2_sum, alphabeta_sum, alphax_sum, betax_sum) \<Rightarrow>
          let factor = fp F 1 / denom8 F rgba block;
              a = (alphax_sum * beta2_sum - betax_sum * alphabeta_sum) * factor;
              b = (betax_sum * alpha2_sum - alphax_sum * alphabeta_sum) * factor;
              alpha0' = to_uint F (min (max a (fp F 0)) (fp F 255));
              alpha1' = to_uint F (min (max b (fp F 0)) (fp F 255));
              (alpha0', alpha1', block) =
                (if alpha0' < alpha1' then (alpha1', alpha0', flipIndices block)
                 else if alpha0' = alpha1' then (alpha0', alpha1', zeroIndices block)
                 else (alpha0', alpha1', block));
              block = set_alpha0 block (ucast alpha0')
          in set_alpha1 block (ucast alpha1'))"

definition sameIndices :: "AlphaBlockDXT5 \<Rightarrow> AlphaBlockDXT5 \<Rightarrow> bool" where
  "sameIndices block0 block1 = (let msk = NOT 0xFFFF in (block0 OR msk) = (block1 OR msk))"

section \<open>The alpha encoders\<close>

text \<open>
  The loop of \<open>compressDXT5A\<close>. Besides the variables of the source (\<open>block\<close>,
  \<open>besterror\<close>, \<open>bestblock\<close>) it carries two counters that the source does not have and
  that no decision reads: \<open>accepted\<close>, the errors of the blocks stored in \<open>bestblock\<close> by
  the loop, latest first, and \<open>n\<close>, the number of times the body has run.
\<close>

function alphaLoop ::
  "'f::{plus,minus,times,inverse,ord} floats \<Rightarrow> (uint8 \<Rightarrow> uint8 \<Rightarrow> nat \<Rightarrow> uint8) \<Rightarrow> ColorBlock
     \<Rightarrow> AlphaBlockDXT5 \<Rightarrow> nat \<Rightarrow> AlphaBlockDXT5 \<Rightarrow> nat list \<Rightarrow> nat
     \<Rightarrow> AlphaBlockDXT5 \<times> nat list \<times> nat" where
  "alphaLoop F evaluatePalette rgba block besterror bestblock accepted n =
     (let block = optimizeAlpha8 F rgba block;
          r = computeAlphaIndices evaluatePalette rgba block;
          error = fst r;
          block = snd r
      in if error \<ge> besterror then (bestblock, accepted, Suc n)
         else if sameIndices block bestblock then (block, error # accepted, Suc n)
         else alphaLoop F evaluatePalette rgba block error block (error # accepted) (Suc n))"
  by pat_completeness auto
termination
  by (relation "measure (\<lambda>(F, evaluatePalette, rgba, block, besterror, bestblock, accepted, n). besterror)")
     auto

declare alphaLoop.simps [simp del]

definition alphaMinMax :: "ColorBlock \<Rightarrow> uint8 \<times> uint8" where
  "alphaMinMax rgba =
     fold (\<lambda>i (alpha0', alpha1').
        let alpha = c_a (rgba i) in (max alpha0' alpha, min alpha1' alpha))
       [0..<16] (0, 255)"

text \<open>
  \<open>compressDXT5A\<close>. The local \<open>block\<close> is not initialised in the source: its first
  value is the argument \<open>garbage\<close>. The result replaces \<open>*dxtBlock\<close> whole.
\<close>

definition compressDXT5A_run ::
  "'f::{plus,minus,times,inverse,ord} floats \<Rightarrow> (uint8 \<Rightarrow> uint8 \<Rightarrow> nat \<Rightarrow> uint8) \<Rightarrow> ColorBlock
     \<Rightarrow> AlphaBlockDXT5 \<Rightarrow> AlphaBlockDXT5 \<times> nat list \<times> nat" where
  "compressDXT5A_run F evaluatePalette rgba garbage =
     (let (alpha0', alpha1') = alphaMinMax rgba;
          block = set_alpha0 garbage
                    (word_of_int (uint alpha0' - cdiv (uint alpha0' - uint alpha1') 34));
          block = set_alpha1 block
                    (word_of_int (uint alpha1' + cdiv (uint alpha0' - uint alpha1') 34));
          r = computeAlphaIndices evaluatePalette rgba block;
          besterror = fst r;
          block = snd r;
          bestblock = block
      in alphaLoop F evaluatePalette rgba block besterror bestblock [] 0)"

definition compressDXT5A ::
  "'f::{plus,minus,times,inverse,ord} floats \<Rightarrow> (uint8 \<Rightarrow> uint8 \<Rightarrow> nat \<Rightarrow> uint8) \<Rightarrow> ColorBlock
     \<Rightarrow> AlphaBlockDXT5 \<Rightarrow> AlphaBlockDXT5" where
  "compressDXT5A F evaluatePalette rgba garbage =
     fst (compressDXT5A_run F evaluatePalette rgba garbage)"

text \<open>
  Modelled from the spec: \<open>AlphaBlockDXT3\<close> (declared in nvimage/BlockDXT.h) is a 64-bit
  word of sixteen 4-bit fields \<open>alpha0 .. alphaF\<close>, sample \<open>i\<close> at bits \<open>4 i .. 4 i + 3\<close>.
  \<open>compressDXT3A\<close> assigns the sixteen fields one after the other.
\<close>

type_synonym AlphaBlockDXT3 = uint64

definition setAlpha3 :: "AlphaBlockDXT3 \<Rightarrow> nat \<Rightarrow> uint8 \<Rightarrow> AlphaBlockDXT3" where
  "setAlpha3 u i v = (u AND NOT (push_bit (4 * i) (mask 4))) OR push_bit (4 * i) (take_bit 4 (ucast v))"

definition compressDXT3A :: "ColorBlock \<Rightarrow> AlphaBlockDXT3 \<Rightarrow> AlphaBlockDXT3" where
  "compressDXT3A rgba dxtBlock =
     fold (\<lambda>i dxtBlock. setAlpha3 dxtBlock i (drop_bit 4 (c_a (rgba i)))) [0..<16] dxtBlock"

text \<open>\<open>BlockDXT3\<close> and \<open>BlockDXT5\<close>: a colour block and an alpha block.\<close>

definition compressDXT3 ::
  "'f::{plus,minus,times,inverse,ord} floats \<Rightarrow> ColorBlock \<Rightarrow> BlockDXT1 \<times> AlphaBlockDXT3
     \<Rightarrow> BlockDXT1 \<times> AlphaBlockDXT3" where
  "compressDXT3 F rgba dxtBlock =
     (compressDXT1 F rgba (fst dxtBlock), compressDXT3A rgba (snd dxtBlock))"

definition compressDXT5 ::
  "'f::{plus,minus,times,inverse,ord} floats \<Rightarrow> (uint8 \<Rightarrow> uint8 \<Rightarrow> nat \<Rightarrow> uint8) \<Rightarrow> ColorBlock
     \<Rightarrow> AlphaBlockDXT5 \<Rightarrow> BlockDXT1 \<times> AlphaBlockDXT5 \<Rightarrow> BlockDXT1 \<times> AlphaBlockDXT5" where
  "compressDXT5 F evaluatePalette rgba garbage dxtBlock =
     (compressDXT1 F rgba (fst dxtBlock), compressDXT5A F evaluatePalette rgba garbage)"

section \<open>Definitions used by the statements\<close>

text \<open>
  Modelled from the spec: the 8-entry ramp palette that \<open>AlphaBlockDXT5::evaluatePalette\<close>
  (not part of the file) produces. Entries 0 and 1 are the endpoints, entries 2..7 the
  six interpolation steps \<open>((8 - p) * alpha0 + (p - 1) * alpha1) / 7\<close> between them.
\<close>

definition evaluatePalette8 :: "uint8 \<Rightarrow> uint8 \<Rightarrow> nat \<Rightarrow> uint8" where
  "evaluatePalette8 a0 a1 p =
     (if p = 0 then a0 else if p = 1 then a1
      else word_of_int (cdiv ((8 - int p) * uint a0 + (int p - 1) * uint a1) 7))"

text \<open>
  Names for parts of the loops above: one step of the scan of \<open>alphaScan\<close>, the result
  of the scan for sample \<open>i\<close> of a block, and the index that the flip loop of
  \<open>optimizeAlpha8\<close> stores for the index \<open>idx\<close> it reads.
\<close>

definition alphaStep :: "(nat \<Rightarrow> uint8) \<Rightarrow> uint8 \<Rightarrow> nat \<Rightarrow> nat \<times> nat \<Rightarrow> nat \<times> nat" where
  "alphaStep alphas alpha p s =
     (case s of (besterror, best) \<Rightarrow>
        let d = uint (alphas p) - uint alpha;
            error = nat (d * d)
        in if error < besterror then (error, p) else (besterror, best))"

definition alphaBest :: "(uint8 \<Rightarrow> uint8 \<Rightarrow> nat \<Rightarrow> uint8) \<Rightarrow> ColorBlock \<Rightarrow> AlphaBlockDXT5 \<Rightarrow> nat \<Rightarrow> nat \<times> nat" where
  "alphaBest evaluatePalette rgba block i =
     alphaScan (evaluatePalette (alpha0 block) (alpha1 block)) (c_a (rgba i))"

definition flipIndex :: "nat \<Rightarrow> nat" where
  "flipIndex idx = (if idx < 2 then 1 - idx else 9 - idx)"

text \<open>A concrete block given by its sixteen alphas.\<close>

definition alphaBlock :: "uint8 list \<Rightarrow> ColorBlock" where
  "alphaBlock as = (\<lambda>i. \<lparr>c_r = 0, c_g = 0, c_b = 0, c_a = as ! i\<rparr>)"





text \<open>
  For the independence of \<open>compressDXT1G\<close> from the previous index word: two search
  states that agree on everything but the index word of their block.
\<close>

definition greenRel :: "greenSearch \<Rightarrow> greenSearch \<Rightarrow> bool" where
  "greenRel s s' = (col0 (fst s) = col0 (fst s') \<and> col1 (fst s) = col1 (fst s') \<and> snd s = snd s')"

text \<open>
  Modelled from the spec: \<open>ColorBlock::hasAlpha\<close> (not part of the file) as the query of
  the external interface, whether the tile contains any alpha below the visibility
  threshold of 128.
\<close>

definition hasSubThresholdAlpha :: "ColorBlock \<Rightarrow> bool" where
  "hasSubThresholdAlpha rgba = list_ex (\<lambda>i. c_a (rgba i) < 128) [0..<16]"

text \<open>
  A block of two alpha levels, eight samples at 255 and eight at 0; the block that
  \<open>compressDXT5A\<close> holds in \<open>bestblock\<close> when it enters its loop on it (the bounds 255 and
  0 are inset by \<open>255 / 34 = 7\<close>), and the block of the first pass through the loop.
\<close>

definition twoLevelBlock :: ColorBlock where
  "twoLevelBlock = alphaBlock [255, 255, 255, 255, 255, 255, 255, 255, 0, 0, 0, 0, 0, 0, 0, 0]"

definition twoLevelStart :: AlphaBlockDXT5 where
  "twoLevelStart =
     snd (computeAlphaIndices evaluatePalette8 twoLevelBlock (set_alpha1 (set_alpha0 0 248) 7))"

definition twoLevelPass :: AlphaBlockDXT5 where
  "twoLevelPass =
     snd (computeAlphaIndices evaluatePalette8 twoLevelBlock
            (optimizeAlpha8 exact twoLevelBlock twoLevelStart))"

section \<open>Binary32 arithmetic\<close>

text \<open>
  The \<open>float\<close> of the compiled library is IEEE 754 binary32 with rounding to nearest, ties
  to even. \<open>expo x\<close> is the binary exponent of a positive \<open>x\<close>, the \<open>e\<close> with
  \<open>2 ^ e \<le> x < 2 ^ (e + 1)\<close>, found by halving or doubling \<open>x\<close> until it lies in
  \<open>[1, 2)\<close>.
\<close>

function expo :: "rat \<Rightarrow> int" where
  "expo x = (if x \<le> 0 then 0
             else if 2 \<le> x then expo (x / 2) + 1
             else if x < 1 then expo (x * 2) - 1
             else 0)"
  by pat_completeness auto
termination
proof (relation "measure (\<lambda>x. nat \<lceil>x\<rceil> + 2 * nat \<lceil>1 / x\<rceil>)")
  show "wf (measure (\<lambda>x. nat \<lceil>x\<rceil> + 2 * nat \<lceil>1 / x\<rceil>))" by simp
next
  fix x :: rat assume "\<not> x \<le> 0" "2 \<le> x"
  then have a: "\<lceil>x / 2\<rceil> < \<lceil>x\<rceil>" by (simp add: ceiling_less_iff) linarith
  have "0 < 1 / x" "1 / x \<le> 1" "0 < 1 / (x / 2)" "1 / (x / 2) \<le> 1"
    using \<open>2 \<le> x\<close> by (simp_all add: field_simps)
  then have b: "\<lceil>1 / x\<rceil> = 1" "\<lceil>1 / (x / 2)\<rceil> = 1" by (simp_all add: ceiling_eq_iff)
  have "0 < \<lceil>x\<rceil>" using \<open>2 \<le> x\<close> by (simp add: less_ceiling_iff)
  with a b show "(x / 2, x) \<in> measure (\<lambda>x. nat \<lceil>x\<rceil> + 2 * nat \<lceil>1 / x\<rceil>)" by simp
next
  fix x :: rat assume x: "\<not> x \<le> 0" "\<not> 2 \<le> x" "x < 1"
  have c1: "\<lceil>x\<rceil> = 1" using x by (simp add: ceiling_eq_iff)
  have c2: "\<lceil>x * 2\<rceil> \<le> 2" using x by (simp add: ceiling_le_iff)
  have c3: "0 < \<lceil>x * 2\<rceil>" using x by (simp add: less_ceiling_iff)
  have y: "1 < 1 / x" using x by (simp add: field_simps)
  have d: "\<lceil>1 / (x * 2)\<rceil> < \<lceil>1 / x\<rceil>"
  proof (cases "1 / x \<le> 2")
    case True
    then have "0 < 1 / (x * 2)" "1 / (x * 2) \<le> 1" using x by (simp_all add: field_simps)
    then have "\<lceil>1 / (x * 2)\<rceil> = 1" by (simp add: ceiling_eq_iff)
    moreover have "1 < \<lceil>1 / x\<rceil>" using y by (simp add: less_ceiling_iff)
    ultimately show ?thesis by simp
  next
    case False
    then have "1 / (x * 2) \<le> 1 / x - 1" using x by (simp add: field_simps)
    then have "\<lceil>1 / (x * 2)\<rceil> \<le> \<lceil>1 / x - 1\<rceil>" by (rule ceiling_mono)
    then show ?thesis by simp
  qed
  have e: "0 < \<lceil>1 / (x * 2)\<rceil>" using x by (simp add: less_ceiling_iff)
  define a b c where "a = \<lceil>x * 2\<rceil>" and "b = \<lceil>1 / (x * 2)\<rceil>" and "c = \<lceil>1 / x\<rceil>"
  have "nat a + 2 * nat b < nat 1 + 2 * nat c"
    using c2 c3 d e unfolding a_def [symmetric] b_def [symmetric] c_def [symmetric] by linarith
  then show "(x * 2, x) \<in> measure (\<lambda>x. nat \<lceil>x\<rceil> + 2 * nat \<lceil>1 / x\<rceil>)"
    unfolding in_measure c1 a_def b_def c_def .
qed

declare expo.simps [simp del]

text \<open>
  \<open>rhe m\<close> is the integer nearest to \<open>m\<close>, the even one of two equally near. \<open>ulp32 x\<close> is
  the distance between the binary32 values around \<open>x\<close>: 24 significant bits give
  \<open>2 ^ (e - 23)\<close>, and \<open>2 ^ (- 149)\<close> for the subnormal values, below \<open>2 ^ (- 126)\<close>.
  \<open>nearest32 x\<close> is the multiple of \<open>ulp32 x\<close> nearest to \<open>x\<close>.
\<close>

definition rhe :: "rat \<Rightarrow> int" where
  "rhe m = (let f = \<lfloor>m\<rfloor>; d = m - of_int f
            in if d < 1 / 2 then f else if 1 / 2 < d then f + 1 else if even f then f else f + 1)"

definition ulp32 :: "rat \<Rightarrow> rat" where
  "ulp32 x = 2 powi (max (expo \<bar>x\<bar>) (- 126) - 23)"

definition nearest32 :: "rat \<Rightarrow> rat" where
  "nearest32 x = of_int (rhe (x / ulp32 x)) * ulp32 x"

text \<open>
  A binary32 value is a rational, an infinity or not-a-number. Zero has no sign here: a
  quotient by zero takes the sign of its numerator, as a quotient by \<open>+0\<close>. \<open>round32 x\<close>
  is the binary32 value of the real number \<open>x\<close>: \<open>nearest32 x\<close>, or an infinity when that
  reaches \<open>2 ^ 128\<close>.
\<close>

datatype binary32 = Fin rat | PInf | NInf | NaN

definition round32 :: "rat \<Rightarrow> binary32" where
  "round32 x =
     (if 2 ^ 128 \<le> \<bar>nearest32 x\<bar> then (if 0 < x then PInf else NInf) else Fin (nearest32 x))"

text \<open>
  The operations: on two rationals, the exact result rounded by \<open>round32\<close>; otherwise the
  special cases of IEEE 754. \<open>sign32\<close> is the sign of a value (0 for zero and for NaN)
  and \<open>inf32 s\<close> the infinity of sign \<open>s\<close>, or NaN for \<open>s = 0\<close>, so that \<open>0 * \<infinity>\<close> and
  \<open>0 / 0\<close> are NaN. Every comparison with NaN is false.
\<close>

fun neg32 :: "binary32 \<Rightarrow> binary32" where
  "neg32 (Fin a) = Fin (- a)"
| "neg32 PInf = NInf"
| "neg32 NInf = PInf"
| "neg32 NaN = NaN"

fun add32 :: "binary32 \<Rightarrow> binary32 \<Rightarrow> binary32" where
  "add32 (Fin a) (Fin b) = round32 (a + b)"
| "add32 NaN y = NaN"
| "add32 x NaN = NaN"
| "add32 PInf NInf = NaN"
| "add32 NInf PInf = NaN"
| "add32 PInf y = PInf"
| "add32 NInf y = NInf"
| "add32 (Fin a) y = y"

fun sign32 :: "binary32 \<Rightarrow> int" where
  "sign32 (Fin a) = (if a < 0 then - 1 else if a = 0 then 0 else 1)"
| "sign32 PInf = 1"
| "sign32 NInf = - 1"
| "sign32 NaN = 0"

definition inf32 :: "int \<Rightarrow> binary32" where
  "inf32 s = (if s = 0 then NaN else if 0 < s then PInf else NInf)"

fun mul32 :: "binary32 \<Rightarrow> binary32 \<Rightarrow> binary32" where
  "mul32 (Fin a) (Fin b) = round32 (a * b)"
| "mul32 NaN y = NaN"
| "mul32 x NaN = NaN"
| "mul32 x y = inf32 (sign32 x * sign32 y)"

fun div32 :: "binary32 \<Rightarrow> binary32 \<Rightarrow> binary32" where
  "div32 (Fin a) (Fin b) = (if b = 0 then inf32 (sign32 (Fin a)) else round32 (a / b))"
| "div32 NaN y = NaN"
| "div32 x NaN = NaN"
| "div32 (Fin a) y = Fin 0"
| "div32 x (Fin b) = inf32 (sign32 x * (if b < 0 then - 1 else 1))"
| "div32 x y = NaN"

fun less32 :: "binary32 \<Rightarrow> binary32 \<Rightarrow> bool" where
  "less32 (Fin a) (Fin b) = (a < b)"
| "less32 NaN y = False"
| "less32 x NaN = False"
| "less32 x NInf = False"
| "less32 PInf y = False"
| "less32 x y = True"

fun eq32 :: "binary32 \<Rightarrow> binary32 \<Rightarrow> bool" where
  "eq32 NaN y = False"
| "eq32 x NaN = False"
| "eq32 x y = (x = y)"

instantiation binary32 :: "{plus,minus,times,inverse,ord}"
begin

definition plus_binary32 :: "binary32 \<Rightarrow> binary32 \<Rightarrow> binary32" where
  "plus_binary32 x y = add32 x y"

definition minus_binary32 :: "binary32 \<Rightarrow> binary32 \<Rightarrow> binary32" where
  "minus_binary32 x y = add32 x (neg32 y)"

definition times_binary32 :: "binary32 \<Rightarrow> binary32 \<Rightarrow> binary32" where
  "times_binary32 x y = mul32 x y"

definition divide_binary32 :: "binary32 \<Rightarrow> binary32 \<Rightarrow> binary32" where
  "divide_binary32 x y = div32 x y"

definition inverse_binary32 :: "binary32 \<Rightarrow> binary32" where
  "inverse_binary32 x = div32 (Fin 1) x"

definition less_binary32 :: "binary32 \<Rightarrow> binary32 \<Rightarrow> bool" where
  "less_binary32 x y = less32 x y"

definition less_eq_binary32 :: "binary32 \<Rightarrow> binary32 \<Rightarrow> bool" where
  "less_eq_binary32 x y = (less32 x y \<or> eq32 x y)"

instance ..

end

text \<open>
  The binary32 unit. \<open>fp q\<close> is the binary32 value of the literal \<open>q\<close>. The cast \<open>uint(x)\<close>
  truncates towards zero and is defined by C++ when the truncated value fits in 32 bits;
  for every other \<open>x\<close>, NaN among them, its result is \<open>ub x\<close>, a parameter of the unit.
  \<open>equal(x, y)\<close> is \<open>fabs(x - y) \<le> 0.0001f\<close>. The statements about this unit apply \<open>min\<close>,
  \<open>max\<close> and \<open>clamp\<close> to values other than NaN only.
\<close>

definition ieee32 :: "(binary32 \<Rightarrow> uint32) \<Rightarrow> binary32 floats" where
  "ieee32 ub =
     \<lparr>fp = round32,
      to_uint = (\<lambda>x. case x of
         Fin q \<Rightarrow>
           if - 1 < q \<and> q < 2 ^ 32 then word_of_int (if 0 \<le> q then \<lfloor>q\<rfloor> else \<lceil>q\<rceil>) else ub x
       | _ \<Rightarrow> ub x),
      nv_equal = (\<lambda>x y. case x - y of
         Fin d \<Rightarrow> Fin \<bar>d\<bar> \<le> round32 (1 / 10000)
       | _ \<Rightarrow> False)\<rparr>"

text \<open>
  The two solutions \<open>a\<close> and \<open>b\<close> of the normal equations in \<open>optimizeAlpha8\<close>, before they
  are clamped and cast; and the fully opaque block, with the block that \<open>compressDXT5A\<close>
  holds when it enters its loop on it.
\<close>

definition solve8 ::
  "'f::{plus,minus,times,inverse} floats \<Rightarrow> ColorBlock \<Rightarrow> AlphaBlockDXT5 \<Rightarrow> 'f \<times> 'f" where
  "solve8 F rgba block =
     (case sums8 F rgba block of
        (alpha2_sum, beta2_sum, alphabeta_sum, alphax_sum, betax_sum) \<Rightarrow>
          let factor = fp F 1 / denom8 F rgba block;
              a = (alphax_sum * beta2_sum - betax_sum * alphabeta_sum) * factor;
              b = (betax_sum * alpha2_sum - alphax_sum * alphabeta_sum) * factor
          in (a, b))"



section \<open>Bit fields and index loops\<close>

subsection \<open>Bit fields\<close>

lemma bit_setIndex:
  "bit (setIndex u i v) n \<longleftrightarrow>
     (if 3 * i + 16 \<le> n \<and> n < 3 * i + 19 then n < 64 \<and> bit v (n - (3 * i + 16)) else bit u n)"
  unfolding setIndex_def
  by (auto simp: bit_simps dest: bit_imp_le_length)

lemma field3_setIndex:
  assumes "i < 16" "j < 16"
  shows "take_bit 3 (drop_bit (3 * j + 16) (setIndex u i v)) =
           (if i = j then take_bit 3 (word_of_nat v) else take_bit 3 (drop_bit (3 * j + 16) u))"
proof (rule bit_word_eqI)
  fix n assume n: "n < LENGTH(64)"
  show "bit (take_bit 3 (drop_bit (3 * j + 16) (setIndex u i v))) n =
         bit (if i = j then take_bit 3 (word_of_nat v) else take_bit 3 (drop_bit (3 * j + 16) u)) n"
  proof (cases "i = j")
    case True
    with assms show ?thesis
      by (auto simp: bit_take_bit_iff bit_drop_bit_eq bit_setIndex bit_simps)
  next
    case False
    then have "n < 3 \<Longrightarrow> \<not> (3 * i + 16 \<le> 3 * j + 16 + n \<and> 3 * j + 16 + n < 3 * i + 19)"
      by arith
    with False show ?thesis
      by (auto simp: bit_take_bit_iff bit_drop_bit_eq bit_setIndex)
  qed
qed

lemma unat_take_bit_3: "unat (take_bit 3 (word_of_nat v :: 64 word)) = v mod 8"
proof -
  have "unat (take_bit 3 (word_of_nat v :: 64 word)) = take_bit 3 (take_bit 64 v)"
    by (simp add: unsigned_take_bit_eq unsigned_of_nat)
  also have "\<dots> = take_bit 3 v" by simp
  also have "\<dots> = v mod 8" by (simp add: take_bit_eq_mod)
  finally show ?thesis .
qed

lemma index_setIndex:
  "i < 16 \<Longrightarrow> j < 16 \<Longrightarrow> index (setIndex u i v) j = (if i = j then v mod 8 else index u j)"
  unfolding index_def by (simp add: field3_setIndex unat_take_bit_3)

lemma index_lt8: "index u i < 8"
proof -
  have "unat (take_bit 3 (drop_bit (3 * i + 16) u)) = take_bit 3 (unat (drop_bit (3 * i + 16) u))"
    by (simp add: unsigned_take_bit_eq)
  also have "\<dots> < 2 ^ 3" by (rule take_bit_nat_less_exp)
  finally show ?thesis by (simp add: index_def)
qed

lemma alpha0_set_alpha0: "alpha0 (set_alpha0 u v) = v"
  unfolding alpha0_def set_alpha0_def
  by (rule bit_word_eqI) (auto simp: bit_simps)

lemma alpha1_set_alpha0: "alpha1 (set_alpha0 u v) = alpha1 u"
  unfolding alpha1_def set_alpha0_def
  by (rule bit_word_eqI) (auto simp: bit_simps dest: bit_imp_le_length)

lemma alpha0_set_alpha1: "alpha0 (set_alpha1 u v) = alpha0 u"
  unfolding alpha0_def set_alpha1_def
  by (rule bit_word_eqI) (auto simp: bit_simps dest: bit_imp_le_length)

lemma alpha1_set_alpha1: "alpha1 (set_alpha1 u v) = v"
  unfolding alpha1_def set_alpha1_def
  by (rule bit_word_eqI) (auto simp: bit_simps)

lemma alpha0_setIndex: "alpha0 (setIndex u i w) = alpha0 u"
  unfolding alpha0_def
  by (rule bit_word_eqI) (auto simp: bit_simps bit_setIndex)

lemma alpha1_setIndex: "alpha1 (setIndex u i w) = alpha1 u"
  unfolding alpha1_def
  by (rule bit_word_eqI) (auto simp: bit_simps bit_setIndex)

lemma index_set_alpha0: "index (set_alpha0 u v) i = index u i"
proof -
  have "take_bit 3 (drop_bit (3 * i + 16) (set_alpha0 u v)) = take_bit 3 (drop_bit (3 * i + 16) u)"
    unfolding set_alpha0_def
    by (rule bit_word_eqI) (auto simp: bit_simps dest: bit_imp_le_length)
  then show ?thesis by (simp add: index_def)
qed

lemma index_set_alpha1: "index (set_alpha1 u v) i = index u i"
proof -
  have "take_bit 3 (drop_bit (3 * i + 16) (set_alpha1 u v)) = take_bit 3 (drop_bit (3 * i + 16) u)"
    unfolding set_alpha1_def
    by (rule bit_word_eqI) (auto simp: bit_simps dest: bit_imp_le_length)
  then show ?thesis by (simp add: index_def)
qed

text \<open>A block is its two endpoints and its sixteen indices.\<close>

lemma AlphaBlockDXT5_eqI:
  assumes a0: "alpha0 u = alpha0 u'" and a1: "alpha1 u = alpha1 u'"
    and ix: "\<And>i. i < 16 \<Longrightarrow> index u i = index u' i"
  shows "u = u'"
proof (rule bit_word_eqI)
  fix n assume n: "n < LENGTH(64)"
  consider "n < 8" | "8 \<le> n" "n < 16" | "16 \<le> n" by linarith
  then show "bit u n = bit u' n"
  proof cases
    case 1
    have "bit (alpha0 u) n = bit (alpha0 u') n" by (simp add: a0)
    with 1 n show ?thesis by (simp add: alpha0_def bit_simps)
  next
    case 2
    have "bit (alpha1 u) (n - 8) = bit (alpha1 u') (n - 8)" by (simp add: a1)
    moreover have "n - 8 < 8" "8 + (n - 8) = n" using 2 by simp_all
    ultimately show ?thesis using n by (simp add: alpha1_def bit_simps)
  next
    case 3
    define i where "i = (n - 16) div 3"
    define k where "k = (n - 16) mod 3"
    have i: "i < 16" and k: "k < 3" and nk: "n = 3 * i + 16 + k"
      using 3 n by (simp_all add: i_def k_def)
    have "unat (take_bit 3 (drop_bit (3 * i + 16) u)) = unat (take_bit 3 (drop_bit (3 * i + 16) u'))"
      using ix [OF i] by (simp add: index_def)
    then have "take_bit 3 (drop_bit (3 * i + 16) u) = take_bit 3 (drop_bit (3 * i + 16) u')"
      by (simp only: word_unat_eq_iff)
    then have "bit (take_bit 3 (drop_bit (3 * i + 16) u)) k = bit (take_bit 3 (drop_bit (3 * i + 16) u')) k"
      by simp
    with k show ?thesis by (simp add: bit_simps nk)
  qed
qed

subsection \<open>The nearest-of-8 scan\<close>

lemma sq_diff_bound:
  fixes x y :: uint8
  shows "nat ((uint x - uint y) * (uint x - uint y)) \<le> 255 * 255"
proof -
  have x: "0 \<le> uint x" "uint x \<le> 255" using uint_lt2p [of x] by simp_all
  have y: "0 \<le> uint y" "uint y \<le> 255" using uint_lt2p [of y] by simp_all
  have "\<bar>uint x - uint y\<bar> \<le> 255" using x y by linarith
  then have "\<bar>uint x - uint y\<bar> * \<bar>uint x - uint y\<bar> \<le> 255 * 255"
    by (intro mult_mono) simp_all
  then have "(uint x - uint y) * (uint x - uint y) \<le> 255 * 255"
    by (simp add: abs_mult_self_eq)
  then show ?thesis by simp
qed

lemma alphaScan_alphaStep: "alphaScan alphas alpha = fold (alphaStep alphas alpha) [0..<8] (256 * 256, 8)"
  unfolding alphaScan_def alphaStep_def by (simp add: case_prod_unfold cong: fold_cong)

lemma alphaStep_inv:
  assumes "e \<le> 255 * 255" "b < 8" "\<forall>p \<in> set ps. p < 8"
  shows "fst (fold (alphaStep alphas alpha) ps (e, b)) \<le> 255 * 255
       \<and> snd (fold (alphaStep alphas alpha) ps (e, b)) < 8"
  using assms
proof (induction ps arbitrary: e b)
  case Nil
  then show ?case by simp
next
  case (Cons p ps)
  obtain e' b' where step: "alphaStep alphas alpha p (e, b) = (e', b')" by (cases "alphaStep alphas alpha p (e, b)")
  have "e' \<le> 255 * 255 \<and> b' < 8"
    using step Cons.prems by (auto simp: alphaStep_def Let_def split: if_splits)
  with Cons.IH [of e' b'] Cons.prems step show ?case by simp
qed

lemma alphaStep_first: "alphaStep alphas alpha 0 (65536, 8) = (nat ((uint (alphas 0) - uint alpha) * (uint (alphas 0) - uint alpha)), 0)"
  using sq_diff_bound [of "alphas 0" alpha] by (simp add: alphaStep_def Let_def)

lemma alphaScan_bounds:
  "fst (alphaScan alphas alpha) \<le> 255 * 255 \<and> snd (alphaScan alphas alpha) < 8"
proof -
  have "[0..<8] = 0 # [1..<8]" by (simp add: upt_rec)
  then have "alphaScan alphas alpha =
      fold (alphaStep alphas alpha) [1..<8] (nat ((uint (alphas 0) - uint alpha) * (uint (alphas 0) - uint alpha)), 0)"
    by (simp add: alphaScan_alphaStep alphaStep_first)
  then show ?thesis
    using alphaStep_inv [of "nat ((uint (alphas 0) - uint alpha) * (uint (alphas 0) - uint alpha))" 0 "[1..<8]" alphas alpha]
      sq_diff_bound [of "alphas 0" alpha]
    by simp
qed

subsection \<open>Loops over the sixteen indices\<close>

lemma computeAlphaIndices_fold:
  fixes g :: "nat \<Rightarrow> nat \<times> nat"
  shows "fold (\<lambda>i (totalError, block).
           case g i of (besterror, best) \<Rightarrow> (totalError + besterror, setIndex block i best)) xs (t, u)
   = (t + sum_list (map (\<lambda>i. fst (g i)) xs), fold (\<lambda>i block. setIndex block i (snd (g i))) xs u)"
  by (induction xs arbitrary: t u) (simp_all add: case_prod_unfold)

lemma computeAlphaIndices_eq:
  "computeAlphaIndices evaluatePalette rgba block =
     (sum_list (map (\<lambda>i. fst (alphaBest evaluatePalette rgba block i)) [0..<16]),
      fold (\<lambda>i u. setIndex u i (snd (alphaBest evaluatePalette rgba block i))) [0..<16] block)"
  unfolding computeAlphaIndices_def Let_def alphaBest_def
  by (simp only: computeAlphaIndices_fold) simp

lemma fold_setIndex:
  "k \<le> 16 \<Longrightarrow>
     alpha0 (fold (\<lambda>i u. setIndex u i (h i (index u i))) [0..<k] u) = alpha0 u
   \<and> alpha1 (fold (\<lambda>i u. setIndex u i (h i (index u i))) [0..<k] u) = alpha1 u
   \<and> (\<forall>j<16. index (fold (\<lambda>i u. setIndex u i (h i (index u i))) [0..<k] u) j
                = (if j < k then h j (index u j) mod 8 else index u j))"
  by (induction k) (auto simp: alpha0_setIndex alpha1_setIndex index_setIndex)

lemma flipIndices_eq:
  "flipIndices block = fold (\<lambda>i u. setIndex u i (flipIndex (index u i))) [0..<16] block"
  unfolding flipIndices_def flipIndex_def Let_def
  by (rule arg_cong [where f = "\<lambda>f. fold f [0..<16] block"]) (auto simp: fun_eq_iff)

lemma flipIndex_lt8: "k < 8 \<Longrightarrow> flipIndex k < 8"
  unfolding flipIndex_def by arith

lemma flipIndices_fields:
  "alpha0 (flipIndices block) = alpha0 block" "alpha1 (flipIndices block) = alpha1 block"
  using fold_setIndex [of 16 "\<lambda>i. flipIndex" block] by (simp_all add: flipIndices_eq)

lemma index_flipIndices: "i < 16 \<Longrightarrow> index (flipIndices block) i = flipIndex (index block i)"
  using fold_setIndex [of 16 "\<lambda>i. flipIndex" block] flipIndex_lt8 [OF index_lt8 [of block i]]
  by (simp add: flipIndices_eq)

lemma zeroIndices_fields:
  "alpha0 (zeroIndices block) = alpha0 block" "alpha1 (zeroIndices block) = alpha1 block"
  using fold_setIndex [of 16 "\<lambda>i k. 0" block] by (simp_all add: zeroIndices_def)

lemma index_zeroIndices: "i < 16 \<Longrightarrow> index (zeroIndices block) i = 0"
  using fold_setIndex [of 16 "\<lambda>i k. 0" block] by (simp add: zeroIndices_def)

lemma computeAlphaIndices_fields:
  "alpha0 (snd (computeAlphaIndices evaluatePalette rgba block)) = alpha0 block"
  "alpha1 (snd (computeAlphaIndices evaluatePalette rgba block)) = alpha1 block"
  using fold_setIndex [of 16 "\<lambda>i k. snd (alphaBest evaluatePalette rgba block i)" block]
  by (simp_all add: computeAlphaIndices_eq)

lemma index_computeAlphaIndices:
  "i < 16 \<Longrightarrow> index (snd (computeAlphaIndices evaluatePalette rgba block)) i
     = snd (alphaBest evaluatePalette rgba block i)"
  using fold_setIndex [of 16 "\<lambda>i k. snd (alphaBest evaluatePalette rgba block i)" block]
    alphaScan_bounds [of "evaluatePalette (alpha0 block) (alpha1 block)" "c_a (rgba i)"]
  by (simp add: computeAlphaIndices_eq alphaBest_def)

lemma sum_list_bound: "(\<And>x. x \<in> set xs \<Longrightarrow> f x \<le> (c::nat)) \<Longrightarrow> sum_list (map f xs) \<le> length xs * c"
  by (induction xs) (simp_all add: add_mono)

lemma computeAlphaIndices_error:
  "fst (computeAlphaIndices evaluatePalette rgba block) \<le> 16 * (255 * 255)"
proof -
  have "sum_list (map (\<lambda>i. fst (alphaBest evaluatePalette rgba block i)) [0..<16]) \<le> length [0..<16] * (255 * 255)"
    by (rule sum_list_bound) (use alphaScan_bounds in \<open>simp add: alphaBest_def\<close>)
  then show ?thesis by (simp add: computeAlphaIndices_eq)
qed

text \<open>The blocks that \<open>computeAlphaIndices\<close> returns are determined by the endpoints.\<close>

lemma computeAlphaIndices_cong:
  assumes "alpha0 u = alpha0 u'" "alpha1 u = alpha1 u'"
  shows "computeAlphaIndices evaluatePalette rgba u = computeAlphaIndices evaluatePalette rgba u'"
proof -
  have best: "alphaBest evaluatePalette rgba u = alphaBest evaluatePalette rgba u'"
    using assms by (simp add: alphaBest_def fun_eq_iff)
  have "snd (computeAlphaIndices evaluatePalette rgba u) = snd (computeAlphaIndices evaluatePalette rgba u')"
    by (rule AlphaBlockDXT5_eqI) (simp_all add: computeAlphaIndices_fields index_computeAlphaIndices assms best)
  moreover have "fst (computeAlphaIndices evaluatePalette rgba u) = fst (computeAlphaIndices evaluatePalette rgba u')"
    by (simp add: computeAlphaIndices_eq best)
  ultimately show ?thesis by (simp add: prod_eq_iff)
qed

lemma palette_flip:
  assumes "k < 8"
  shows "evaluatePalette8 a1 a0 (flipIndex k) = evaluatePalette8 a0 a1 k"
proof -
  consider "k = 0" | "k = 1" | "2 \<le> k" by linarith
  then show ?thesis
  proof cases
    case 3
    with assms have "int (9 - k) = 9 - int k" "9 - k \<noteq> 0" "9 - k \<noteq> 1" "k \<noteq> 0" "k \<noteq> 1" "\<not> k < 2"
      by simp_all
    then show ?thesis
      by (simp add: evaluatePalette8_def flipIndex_def algebra_simps)
  qed (simp_all add: evaluatePalette8_def flipIndex_def)
qed


section \<open>Properties of the palette assignment\<close>

text \<open>
  C10. In \<open>computeAlphaIndices\<close> the scan of the eight palette entries always ends with
  \<open>best < 8\<close>: the first entry already replaces the initial \<open>besterror = 256 * 256\<close>,
  since a squared difference of two bytes is at most \<open>255 * 255\<close>. So the assertion
  \<open>best < 8\<close> holds, and the index stored for each of the sixteen samples is the \<open>best\<close>
  of its scan, a value in \<open>0..7\<close>.
\<close>

theorem computeAlphaIndices_best_in_range:
  "snd (alphaScan alphas alpha) < 8
   \<and> fst (alphaScan alphas alpha) \<le> 255 * 255
   \<and> (\<forall>i<16. index (snd (computeAlphaIndices evaluatePalette rgba block)) i
                = snd (alphaScan (evaluatePalette (alpha0 block) (alpha1 block)) (c_a (rgba i)))
              \<and> index (snd (computeAlphaIndices evaluatePalette rgba block)) i < 8)"
  using alphaScan_bounds [of alphas alpha]
  by (simp add: index_computeAlphaIndices alphaBest_def alphaScan_bounds)

theorem computeAlphaIndices_best_in_range_witness:
  "(3::nat) < 16
   \<and> snd (alphaScan (evaluatePalette8 255 0) 100) < 8
   \<and> index (snd (computeAlphaIndices evaluatePalette8 (alphaBlock (replicate 16 100)) 0)) 3
       = snd (alphaScan (evaluatePalette8 (alpha0 0) (alpha1 0)) (c_a (alphaBlock (replicate 16 100) 3)))"
  using computeAlphaIndices_best_in_range
    [of "evaluatePalette8 255 0" 100 evaluatePalette8 "alphaBlock (replicate 16 100)" 0]
  by simp

text \<open>
  C5. Under the 8-entry ramp palette, swapping the two endpoints and remapping an index
  as the flip loop of \<open>optimizeAlpha8\<close> does (0 and 1 exchanged, \<open>k\<close> to \<open>9 - k\<close> for
  \<open>k \<ge> 2\<close>) selects the same alpha value: for every index \<open>k\<close> in \<open>0..7\<close>, and for the
  index of every sample of a block before and after the loop.
\<close>

theorem flip_preserves_palette_value:
  "(k < 8 \<longrightarrow> evaluatePalette8 a1 a0 (flipIndex k) = evaluatePalette8 a0 a1 k)
   \<and> (i < 16 \<longrightarrow> index (flipIndices block) i = flipIndex (index block i)
                \<and> evaluatePalette8 a1 a0 (index (flipIndices block) i)
                    = evaluatePalette8 a0 a1 (index block i))"
  using palette_flip [of k a1 a0] palette_flip [OF index_lt8, of a1 a0 block i]
  by (simp add: index_flipIndices)

theorem flip_preserves_palette_value_witness:
  "(5::nat) < 8 \<and> evaluatePalette8 30 200 (flipIndex 5) = evaluatePalette8 200 30 5
   \<and> (2::nat) < 16
   \<and> evaluatePalette8 30 200 (index (flipIndices (setIndex 0 2 5)) 2)
       = evaluatePalette8 200 30 (index (setIndex 0 2 5) 2)"
proof -
  have "(5::nat) < 8" and "(2::nat) < 16" by simp_all
  then show ?thesis
    using flip_preserves_palette_value [of 5 30 200 2 "setIndex 0 2 5"] by blast
qed

section \<open>Properties of the green search\<close>

subsection \<open>Fields of Color16\<close>


lemma Color16_g_set_r: "Color16_g (set_r u v) = Color16_g u"
proof -
  have "take_bit 6 (drop_bit 5 (set_r u v)) = take_bit 6 (drop_bit 5 u)"
    unfolding set_r_def by (rule bit_word_eqI) (auto simp: bit_simps)
  then show ?thesis by (simp add: Color16_g_def)
qed


text \<open>Assigning the three fields replaces the whole word.\<close>

lemma bit_set_r: "bit (set_r u v) n \<longleftrightarrow> (if 11 \<le> n then n < 16 \<and> bit v (n - 11) else bit u n)"
  unfolding set_r_def by (auto simp: bit_simps dest: bit_imp_le_length)

lemma bit_set_g: "bit (set_g u v) n \<longleftrightarrow> (if 5 \<le> n \<and> n < 11 then bit v (n - 5) else bit u n)"
  unfolding set_g_def by (auto simp: bit_simps dest: bit_imp_le_length)

lemma bit_set_b: "bit (set_b u v) n \<longleftrightarrow> (if n < 5 then bit v n else bit u n)"
  unfolding set_b_def by (auto simp: bit_simps dest: bit_imp_le_length)

lemma set_rgb_overwrites: "set_b (set_g (set_r u r) g) b = set_b (set_g (set_r u' r) g) b"
  by (rule bit_word_eqI) (simp add: bit_set_r bit_set_g bit_set_b)

subsection \<open>The green search\<close>



lemma fold_inv: "(\<And>x s. P s \<Longrightarrow> P (f x s)) \<Longrightarrow> P s \<Longrightarrow> P (fold f xs s)"
  by (induction xs arbitrary: s) simp_all





lemma compressDXT1G_cases:
  fixes block :: BlockDXT1 and ming maxg :: uint8
  assumes mm: "greenMinMax rgba = (ming, maxg)"
  defines "block6 \<equiv> block\<lparr>col0 := set_b (set_g (set_r (col0 block) 31) (uint maxg)) 0,
                            col1 := set_b (set_g (set_r (col1 block) 31) (uint ming)) 0\<rparr>"
  shows "compressDXT1G evaluatePalette rgba block =
    (let block7 =
            (if uint maxg - uint ming > 4 then
               (case greenSearchLoop rgba (uint ming) (uint maxg)
                       (block6, computeGreenError rgba block6, uint maxg, uint ming) of
                  (block, besterror, bestg0, bestg1) \<Rightarrow>
                    block\<lparr>col0 := set_g (col0 block) bestg0, col1 := set_g (col1 block) bestg1\<rparr>)
             else block6)
      in block7\<lparr>indices := computeGreenIndices rgba (evaluatePalette (col0 block7) (col1 block7))\<rparr>)"
  unfolding compressDXT1G_def block6_def by (simp add: mm Let_def)

lemma computeGreenError_indices [simp]:
  "computeGreenError rgba (block\<lparr>indices := x\<rparr>) = computeGreenError rgba block"
  by (simp add: computeGreenError_def)




section \<open>Order of the colour endpoints\<close>

lemma optimizeEndPoints4_order:
  "col1 dxtBlock \<le> col0 dxtBlock \<Longrightarrow>
     col1 (optimizeEndPoints4 F block dxtBlock) \<le> col0 (optimizeEndPoints4 F block dxtBlock)"
  by (auto simp: optimizeEndPoints4_def Let_def split: prod.splits if_splits)

lemma compressDXT1_order:
  "col1 (compressDXT1 F rgba dxtBlock) \<le> col0 (compressDXT1 F rgba dxtBlock)"
  unfolding compressDXT1_def Let_def
  by (auto split: prod.splits if_splits intro!: optimizeEndPoints4_order)

lemma compressDXT1_Color32_order:
  "col1 (compressDXT1_Color32 OMatch5 OMatch6 c dxtBlock) \<le> col0 (compressDXT1_Color32 OMatch5 OMatch6 c dxtBlock)"
  unfolding compressDXT1_Color32_def Let_def
  by (simp add: not_less less_imp_le)

lemma compressDXT1a_order:
  "hasAlpha rgba \<Longrightarrow>
     col0 (compressDXT1a F hasAlpha rgba dxtBlock) \<le> col1 (compressDXT1a F hasAlpha rgba dxtBlock)"
  unfolding compressDXT1a_def Let_def
  by (auto split: prod.splits if_splits)



text \<open>
  C1. The 4-colour encoders return \<open>col0 \<ge> col1\<close> as packed words: \<open>compressDXT1\<close> on a
  block (\<open>optimizeEndPoints4\<close>, its last step, keeps the order), and \<open>compressDXT1\<close> on a
  single colour. The punch-through branch of \<open>compressDXT1a\<close>, taken when \<open>hasAlpha\<close>
  holds of the block, returns \<open>col0 \<le> col1\<close>. This holds whatever the floating-point
  unit computes.
\<close>

theorem endpoint_order:
  "col1 (compressDXT1 F rgba dxtBlock) \<le> col0 (compressDXT1 F rgba dxtBlock)
   \<and> (col1 dxtBlock \<le> col0 dxtBlock \<longrightarrow>
        col1 (optimizeEndPoints4 F block dxtBlock) \<le> col0 (optimizeEndPoints4 F block dxtBlock))
   \<and> col1 (compressDXT1_Color32 OMatch5 OMatch6 c dxtBlock)
        \<le> col0 (compressDXT1_Color32 OMatch5 OMatch6 c dxtBlock)
   \<and> (hasAlpha rgba \<longrightarrow>
        col0 (compressDXT1a F hasAlpha rgba dxtBlock) \<le> col1 (compressDXT1a F hasAlpha rgba dxtBlock))"
  using compressDXT1_order [of F rgba dxtBlock] optimizeEndPoints4_order [of dxtBlock F block]
    compressDXT1_Color32_order [of OMatch5 OMatch6 c dxtBlock]
    compressDXT1a_order [of hasAlpha rgba F dxtBlock]
  by blast

theorem endpoint_order_witness:
  "col1 \<lparr>col0 = 5, col1 = 3, indices = 0\<rparr> \<le> col0 \<lparr>col0 = 5, col1 = 3, indices = 0\<rparr>
   \<and> col1 (optimizeEndPoints4 exact (extractColorBlockRGB exact (alphaBlock (replicate 16 0)))
              \<lparr>col0 = 5, col1 = 3, indices = 0\<rparr>)
        \<le> col0 (optimizeEndPoints4 exact (extractColorBlockRGB exact (alphaBlock (replicate 16 0)))
              \<lparr>col0 = 5, col1 = 3, indices = 0\<rparr>)
   \<and> hasSubThresholdAlpha (alphaBlock (replicate 16 0))
   \<and> col0 (compressDXT1a exact hasSubThresholdAlpha (alphaBlock (replicate 16 0))
              \<lparr>col0 = 5, col1 = 3, indices = 0\<rparr>)
        \<le> col1 (compressDXT1a exact hasSubThresholdAlpha (alphaBlock (replicate 16 0))
              \<lparr>col0 = 5, col1 = 3, indices = 0\<rparr>)"
proof -
  have h: "hasSubThresholdAlpha (alphaBlock (replicate 16 0))"
    by (simp add: hasSubThresholdAlpha_def alphaBlock_def upt_rec)
  show ?thesis
    using h endpoint_order [of exact "alphaBlock (replicate 16 0)" "\<lparr>col0 = 5, col1 = 3, indices = 0\<rparr>"
        "extractColorBlockRGB exact (alphaBlock (replicate 16 0))" _ _ _ hasSubThresholdAlpha]
    by simp
qed

section \<open>Determinism\<close>

subsection \<open>Independence of the previous contents\<close>

lemma BlockDXT1_overwritten:
  fixes d d' :: BlockDXT1
  shows "d\<lparr>col0 := x, col1 := y, indices := z\<rparr> = d'\<lparr>col0 := x, col1 := y, indices := z\<rparr>"
  by (cases d, cases d') simp

lemma compressDXT1_indep: "compressDXT1 F rgba d = compressDXT1 F rgba d'"
  unfolding compressDXT1_def Let_def
  by (simp split: prod.splits add: BlockDXT1_overwritten [where d = d and d' = d'])


lemma compressDXT1_Color32_indep:
  "compressDXT1_Color32 OMatch5 OMatch6 c d = compressDXT1_Color32 OMatch5 OMatch6 c d'"
proof -
  have "set_b (set_g (set_r (col0 d) r) g) b = set_b (set_g (set_r (col0 d') r) g) b" for r g b
    by (rule set_rgb_overwrites)
  moreover have "set_b (set_g (set_r (col1 d) r) g) b = set_b (set_g (set_r (col1 d') r) g) b" for r g b
    by (rule set_rgb_overwrites)
  ultimately show ?thesis
    unfolding compressDXT1_Color32_def Let_def
    by (cases d, cases d') simp
qed

lemma compressDXT1a_Color32_indep:
  "compressDXT1a_Color32 OMatch5 OMatch6 c d = compressDXT1a_Color32 OMatch5 OMatch6 c d'"
  unfolding compressDXT1a_Color32_def
  using compressDXT1_Color32_indep [of OMatch5 OMatch6 c d d']
  by (simp add: BlockDXT1_overwritten [where d = d and d' = d'])

lemma compressDXT1a_indep:
  "compressDXT1a F hasAlpha rgba d = compressDXT1a F hasAlpha rgba d'"
  unfolding compressDXT1a_def Let_def
  using compressDXT1_indep [of F rgba d d']
  by (simp split: prod.splits add: BlockDXT1_overwritten [where d = d and d' = d'])


lemma fold_rel:
  "(\<And>x s s'. R s s' \<Longrightarrow> R (f x s) (f x s')) \<Longrightarrow> R s s' \<Longrightarrow> R (fold f xs s) (fold f xs s')"
  by (induction xs arbitrary: s s') simp_all

lemma computeGreenError_cong:
  "col0 b = col0 b' \<Longrightarrow> col1 b = col1 b' \<Longrightarrow> computeGreenError rgba b = computeGreenError rgba b'"
  by (simp add: computeGreenError_def)

lemma greenCandidate_rel:
  "greenRel s s' \<Longrightarrow> greenRel (greenCandidate rgba ming maxg g0 g1 s) (greenCandidate rgba ming maxg g0 g1 s')"
proof -
  assume r: "greenRel s s'"
  obtain b e h0 h1 where s: "s = (b, e, h0, h1)" by (cases s)
  obtain b' where s': "s' = (b', e, h0, h1)" using r s by (cases s') (simp add: greenRel_def)
  have c: "col0 b = col0 b'" "col1 b = col1 b'" using r by (simp_all add: greenRel_def s s')
  have "computeGreenError rgba (b\<lparr>col0 := set_g (col0 b) g0, col1 := set_g (col1 b) g1\<rparr>)
      = computeGreenError rgba (b'\<lparr>col0 := set_g (col0 b') g0, col1 := set_g (col1 b') g1\<rparr>)"
    by (rule computeGreenError_cong) (simp_all add: c)
  then show ?thesis
    by (simp add: greenCandidate_def s s' Let_def greenRel_def c)
qed

lemma greenSearchLoop_rel:
  "greenRel s s' \<Longrightarrow> greenRel (greenSearchLoop rgba ming maxg s) (greenSearchLoop rgba ming maxg s')"
  unfolding greenSearchLoop_def
  by (rule fold_rel, rule fold_rel, rule greenCandidate_rel)

lemma compressDXT1G_indep:
  "compressDXT1G evaluatePalette rgba d = compressDXT1G evaluatePalette rgba d'"
proof -
  obtain ming maxg where mm: "greenMinMax rgba = (ming, maxg)"
    by (cases "greenMinMax rgba")
  define b6 where "b6 d = d\<lparr>col0 := set_b (set_g (set_r (col0 d) 31) (uint maxg)) 0,
                            col1 := set_b (set_g (set_r (col1 d) 31) (uint ming)) 0\<rparr>" for d :: BlockDXT1
  define b7 where "b7 d = (if uint maxg - uint ming > 4 then
               (case greenSearchLoop rgba (uint ming) (uint maxg)
                       (b6 d, computeGreenError rgba (b6 d), uint maxg, uint ming) of
                  (block, besterror, bestg0, bestg1) \<Rightarrow>
                    block\<lparr>col0 := set_g (col0 block) bestg0, col1 := set_g (col1 block) bestg1\<rparr>)
             else b6 d)" for d
  have out: "compressDXT1G evaluatePalette rgba d =
      (b7 d)\<lparr>indices := computeGreenIndices rgba (evaluatePalette (col0 (b7 d)) (col1 (b7 d)))\<rparr>" for d
    using compressDXT1G_cases [OF mm, of evaluatePalette d] by (simp add: b7_def b6_def Let_def)
  have c6: "col0 (b6 d) = col0 (b6 d')" "col1 (b6 d) = col1 (b6 d')"
    by (simp_all add: b6_def set_rgb_overwrites [of "col0 d" _ _ _ "col0 d'"]
        set_rgb_overwrites [of "col1 d" _ _ _ "col1 d'"])
  have e6: "computeGreenError rgba (b6 d) = computeGreenError rgba (b6 d')"
    by (rule computeGreenError_cong) (fact c6)+
  have "greenRel (b6 d, computeGreenError rgba (b6 d), uint maxg, uint ming)
                 (b6 d', computeGreenError rgba (b6 d'), uint maxg, uint ming)"
    by (simp add: greenRel_def c6 e6)
  then have "greenRel (greenSearchLoop rgba (uint ming) (uint maxg) (b6 d, computeGreenError rgba (b6 d), uint maxg, uint ming))
      (greenSearchLoop rgba (uint ming) (uint maxg) (b6 d', computeGreenError rgba (b6 d'), uint maxg, uint ming))"
    by (rule greenSearchLoop_rel)
  then have c7: "col0 (b7 d) = col0 (b7 d') \<and> col1 (b7 d) = col1 (b7 d')"
    by (auto simp: b7_def c6 greenRel_def split: prod.splits)
  show ?thesis
    unfolding out using c7
    by (cases "b7 d", cases "b7 d'") simp
qed

subsection \<open>The truncated alpha block\<close>

lemma bit_setAlpha3:
  "bit (setAlpha3 u i v) n \<longleftrightarrow>
     (if 4 * i \<le> n \<and> n < 4 * i + 4 then n < 64 \<and> bit v (n - 4 * i) else bit u n)"
  unfolding setAlpha3_def
  by (auto simp: bit_simps dest: bit_imp_le_length)

lemma bit_fold_setAlpha3:
  "bit (fold (\<lambda>i u. setAlpha3 u i (f i)) [0..<k] u) n \<longleftrightarrow>
     (if n < 4 * k then n < 64 \<and> bit (f (n div 4)) (n mod 4) else bit u n)"
proof (induction k)
  case 0
  then show ?case by simp
next
  case (Suc k)
  have "4 * k \<le> n \<and> n < 4 * k + 4 \<Longrightarrow> n div 4 = k \<and> n mod 4 = n - 4 * k" by presburger
  moreover have "n < 4 * k \<Longrightarrow> n < 4 * Suc k" by simp
  moreover have "n < 4 * Suc k \<Longrightarrow> \<not> n < 4 * k \<Longrightarrow> 4 * k \<le> n \<and> n < 4 * k + 4" by simp
  ultimately show ?case
    using Suc by (auto simp: bit_setAlpha3)
qed

lemma compressDXT3A_indep: "compressDXT3A rgba u = compressDXT3A rgba u'"
  unfolding compressDXT3A_def
  by (rule bit_word_eqI) (simp add: bit_fold_setAlpha3)

subsection \<open>The alpha ramp\<close>

lemma compressDXT5A_run_indep:
  "compressDXT5A_run F evaluatePalette rgba g = compressDXT5A_run F evaluatePalette rgba g'"
proof -
  have "computeAlphaIndices evaluatePalette rgba (set_alpha1 (set_alpha0 g x) y)
      = computeAlphaIndices evaluatePalette rgba (set_alpha1 (set_alpha0 g' x) y)" for x y
    by (rule computeAlphaIndices_cong)
       (simp_all add: alpha0_set_alpha1 alpha0_set_alpha0 alpha1_set_alpha1)
  then show ?thesis
    unfolding compressDXT5A_run_def Let_def by (simp split: prod.splits)
qed


text \<open>
  C9. Every encoder is a function of the input block alone: the block it returns does not
  depend on what the output block held before the call, nor, in \<open>compressDXT5A\<close>, on the
  value of the local block that the source leaves uninitialised. Two runs on the same
  input therefore return the same bits. (The floating-point unit, the lookup tables and
  the palette evaluators are fixed functions.)
\<close>

theorem encoders_deterministic:
  "compressDXT1 F rgba d = compressDXT1 F rgba d'
   \<and> compressDXT1_Color32 OMatch5 OMatch6 c d = compressDXT1_Color32 OMatch5 OMatch6 c d'
   \<and> compressDXT1a F hasAlpha rgba d = compressDXT1a F hasAlpha rgba d'
   \<and> compressDXT1a_Color32 OMatch5 OMatch6 c d = compressDXT1a_Color32 OMatch5 OMatch6 c d'
   \<and> compressDXT1G evaluatePalette4 rgba d = compressDXT1G evaluatePalette4 rgba d'
   \<and> compressDXT3A rgba u = compressDXT3A rgba u'
   \<and> compressDXT5A F evaluatePalette rgba u = compressDXT5A F evaluatePalette rgba u'
   \<and> compressDXT3 F rgba (d, u) = compressDXT3 F rgba (d', u')
   \<and> compressDXT5 F evaluatePalette rgba u (d, u) = compressDXT5 F evaluatePalette rgba u' (d', u')"
  using compressDXT1_indep [of F rgba d d'] compressDXT1_Color32_indep [of OMatch5 OMatch6 c d d']
    compressDXT1a_indep [of F hasAlpha rgba d d'] compressDXT1a_Color32_indep [of OMatch5 OMatch6 c d d']
    compressDXT1G_indep [of evaluatePalette4 rgba d d'] compressDXT3A_indep [of rgba u u']
    compressDXT5A_run_indep [of F evaluatePalette rgba u u']
  by (simp add: compressDXT3_def compressDXT5_def compressDXT5A_def)

section \<open>The alpha convergence loop\<close>

lemma alphaLoop_result:
  assumes "Q bestblock"
    and "\<And>b. Q (snd (computeAlphaIndices evaluatePalette rgba (optimizeAlpha8 F rgba b)))"
  shows "Q (fst (alphaLoop F evaluatePalette rgba block besterror bestblock accepted n))"
  using assms
proof (induction F evaluatePalette rgba block besterror bestblock accepted n rule: alphaLoop.induct)
  case (1 F evaluatePalette rgba block besterror bestblock accepted n)
  show ?case
    apply (subst alphaLoop.simps)
    apply (simp add: Let_def 1)
    done
qed

lemma alphaLoop_trace:
  "\<exists>new. fst (snd (alphaLoop F evaluatePalette rgba block besterror bestblock accepted n)) = new @ accepted
      \<and> sorted_wrt (<) (new @ [besterror])
      \<and> length new \<le> besterror
      \<and> snd (snd (alphaLoop F evaluatePalette rgba block besterror bestblock accepted n)) \<le> n + length new + 1"
proof (induction F evaluatePalette rgba block besterror bestblock accepted n rule: alphaLoop.induct)
  case (1 F evaluatePalette rgba block besterror bestblock accepted n)
  define block' where "block' = optimizeAlpha8 F rgba block"
  define error where "error = fst (computeAlphaIndices evaluatePalette rgba block')"
  define block'' where "block'' = snd (computeAlphaIndices evaluatePalette rgba block')"
  consider (stop) "error \<ge> besterror"
    | (same) "error < besterror" "sameIndices block'' bestblock"
    | (go) "error < besterror" "\<not> sameIndices block'' bestblock"
    by linarith
  then show ?case
  proof cases
    case stop
    then show ?thesis
      by (subst (1 2) alphaLoop.simps)
         (simp add: Let_def block'_def error_def)
  next
    case same
    then have "alphaLoop F evaluatePalette rgba block besterror bestblock accepted n
        = (block'', error # accepted, Suc n)"
      by (subst alphaLoop.simps)
         (simp add: Let_def block'_def error_def block''_def)
    with same show ?thesis
      by (intro exI [of _ "[error]"]) simp
  next
    case go
    then have eq: "alphaLoop F evaluatePalette rgba block besterror bestblock accepted n
        = alphaLoop F evaluatePalette rgba block'' error block'' (error # accepted) (Suc n)"
      by (subst alphaLoop.simps)
         (simp add: Let_def block'_def error_def block''_def)
    from go have "\<exists>new. fst (snd (alphaLoop F evaluatePalette rgba block'' error block'' (error # accepted) (Suc n))) = new @ error # accepted
      \<and> sorted_wrt (<) (new @ [error])
      \<and> length new \<le> error
      \<and> snd (snd (alphaLoop F evaluatePalette rgba block'' error block'' (error # accepted) (Suc n))) \<le> Suc n + length new + 1"
      using "1.IH" [OF refl refl refl refl]
      by (simp add: error_def block''_def block'_def)
    then obtain new where new: "fst (snd (alphaLoop F evaluatePalette rgba block'' error block'' (error # accepted) (Suc n))) = new @ error # accepted"
      "sorted_wrt (<) (new @ [error])" "length new \<le> error"
      "snd (snd (alphaLoop F evaluatePalette rgba block'' error block'' (error # accepted) (Suc n))) \<le> Suc n + length new + 1"
      by blast
    have "sorted_wrt (<) ((new @ [error]) @ [besterror])"
      using new(2) go(1) by (auto simp: sorted_wrt_append)
    with new go(1) show ?thesis
      by (intro exI [of _ "new @ [error]"]) (simp add: eq)
  qed
qed


text \<open>
  The loop of \<open>compressDXT5A\<close> ends on every block: \<open>alphaLoop\<close> is a total function,
  since each pass that does not leave the loop lowers \<open>besterror\<close>, a natural number. The
  body runs at most \<open>besterror + 1\<close> times, hence at most \<open>16 * 255 * 255 + 1\<close> times in
  \<open>compressDXT5A\<close>, whose first error is at most \<open>16 * 255 * 255\<close>. The errors of the
  blocks accepted as best, from the latest back to the first error, increase strictly:
  every accepted error is smaller than the one before it. Both facts rest on the exit at
  \<open>error \<ge> besterror\<close> alone; what the exit at \<open>sameIndices\<close> tests is the subject of
  the subsection on that exit.
\<close>

lemma compressDXT5A_terminates:
  "(case alphaLoop F evaluatePalette rgba block besterror bestblock [] 0 of
      (result, accepted, n) \<Rightarrow>
        n \<le> besterror + 1 \<and> n \<le> length accepted + 1 \<and> sorted_wrt (<) (accepted @ [besterror]))
   \<and> (case compressDXT5A_run F evaluatePalette rgba garbage of
        (result, accepted, n) \<Rightarrow> n \<le> 16 * (255 * 255) + 1 \<and> sorted_wrt (<) accepted)"
proof -
  have loop: "n \<le> e + 1 \<and> n \<le> length accepted + 1 \<and> sorted_wrt (<) (accepted @ [e])"
    if "alphaLoop F evaluatePalette rgba b e bb [] 0 = (result, accepted, n)"
    for b e bb result accepted n
    using alphaLoop_trace [of F evaluatePalette rgba b e bb "[]" 0] that by auto
  have init: "fst (computeAlphaIndices evaluatePalette rgba b) \<le> 16 * (255 * 255)" for b
    by (rule computeAlphaIndices_error)
  have run: "n \<le> 16 * (255 * 255) + 1 \<and> sorted_wrt (<) accepted"
    if "compressDXT5A_run F evaluatePalette rgba garbage = (result, accepted, n)"
    for result accepted n
  proof -
    from that obtain b where "alphaLoop F evaluatePalette rgba (snd (computeAlphaIndices evaluatePalette rgba b))
        (fst (computeAlphaIndices evaluatePalette rgba b)) (snd (computeAlphaIndices evaluatePalette rgba b)) [] 0
        = (result, accepted, n)"
      unfolding compressDXT5A_run_def Let_def by (auto split: prod.splits)
    from loop [OF this] init [of b] show ?thesis
      by (auto simp: sorted_wrt_append)
  qed
  show ?thesis
    using loop run by (auto split: prod.splits)
qed

subsection \<open>Order of the alpha endpoints\<close>

lemma alphaMinMax_order: "snd (alphaMinMax rgba) \<le> fst (alphaMinMax rgba)"
proof -
  have "[0..<16] = 0 # [1..<16]" by (simp add: upt_rec)
  moreover have "c_a (rgba 0) \<le> 255"
    using uint_lt2p [of "c_a (rgba 0)"] by (simp add: word_le_def)
  then have "min 255 (c_a (rgba 0)) = c_a (rgba 0)"
    by (rule min_absorb2)
  ultimately have "alphaMinMax rgba =
      fold (\<lambda>i (alpha0', alpha1'). let alpha = c_a (rgba i) in (max alpha0' alpha, min alpha1' alpha))
        [1..<16] (c_a (rgba 0), c_a (rgba 0))"
    by (simp add: alphaMinMax_def Let_def)
  also have "snd \<dots> \<le> fst \<dots>"
    by (rule fold_inv [where P = "\<lambda>s. snd s \<le> fst s"])
       (auto simp: Let_def min_def max_def split: prod.splits)
  finally show ?thesis .
qed

lemma cdiv_nonneg: "0 \<le> a \<Longrightarrow> 0 < b \<Longrightarrow> cdiv a b = a div b"
  by (cases "a = 0") (simp_all add: cdiv_def)

lemma init_order:
  fixes a0 a1 :: uint8
  assumes "a1 \<le> a0"
  shows "(word_of_int (uint a1 + cdiv (uint a0 - uint a1) 34) :: uint8)
           \<le> word_of_int (uint a0 - cdiv (uint a0 - uint a1) 34)"
proof -
  have le: "uint a1 \<le> uint a0" using assms by (simp add: word_le_def)
  have b0: "0 \<le> uint a1" "uint a0 < 256" using uint_lt2p [of a0] by simp_all
  define q where "q = (uint a0 - uint a1) div 34"
  have q: "cdiv (uint a0 - uint a1) 34 = q" using le by (simp add: cdiv_nonneg q_def)
  have q2: "0 \<le> q" "2 * q \<le> uint a0 - uint a1" using le unfolding q_def by simp_all
  have lo: "0 \<le> uint a1 + q" "uint a1 + q < 256" "0 \<le> uint a0 - q" "uint a0 - q < 256"
    "uint a1 + q \<le> uint a0 - q"
    using q2 b0 le by linarith+
  have small: "uint (word_of_int k :: uint8) = k" if "0 \<le> k" "k < 256" for k
    unfolding uint_word_of_int_eq using that by (intro take_bit_int_eq_self) simp_all
  show ?thesis
    unfolding q word_le_def small [OF lo(1) lo(2)] small [OF lo(3) lo(4)] by (fact lo(5))
qed

lemma ucast_le_small:
  fixes x y :: uint32
  assumes "x \<le> y" "y \<le> 255"
  shows "(ucast x :: uint8) \<le> ucast y"
proof -
  have y: "unat y \<le> 255" using assms(2) by (simp add: word_le_nat_alt)
  have x: "unat x \<le> unat y" using assms(1) by (simp add: word_le_nat_alt)
  have "unat (ucast x :: uint8) = unat x" "unat (ucast y :: uint8) = unat y"
    using x y by (simp_all add: unsigned_ucast_eq take_bit_nat_eq_self)
  with x show ?thesis by (simp add: word_le_nat_alt)
qed

lemma ucast_eq_small:
  fixes x y :: uint32
  assumes "x \<le> 255" "y \<le> 255" "(ucast x :: uint8) = ucast y"
  shows "x = y"
proof -
  have y: "unat y \<le> 255" and x: "unat x \<le> 255" using assms by (simp_all add: word_le_nat_alt)
  have "unat (ucast x :: uint8) = unat x" "unat (ucast y :: uint8) = unat y"
    using x y by (simp_all add: unsigned_ucast_eq take_bit_nat_eq_self)
  with assms(3) show ?thesis by (simp add: word_unat_eq_iff)
qed


lemma optimizeAlpha8_cases:
  fixes F :: "'f::{plus,minus,times,inverse,ord} floats"
  shows "\<exists>A0 A1 a b. A0 = to_uint F (min (max a (fp F 0)) (fp F 255))
          \<and> A1 = to_uint F (min (max b (fp F 0)) (fp F 255))
          \<and> optimizeAlpha8 F rgba block =
              (if A0 < A1 then set_alpha1 (set_alpha0 (flipIndices block) (ucast A1)) (ucast A0)
               else if A0 = A1 then set_alpha1 (set_alpha0 (zeroIndices block) (ucast A0)) (ucast A1)
               else set_alpha1 (set_alpha0 block (ucast A0)) (ucast A1))"
  unfolding optimizeAlpha8_def Let_def
  by (auto split: prod.splits)

lemma optimizeAlpha8_order:
  fixes F :: "'f::{plus,minus,times,inverse,ord} floats"
  assumes range: "\<And>v. to_uint F (min (max v (fp F 0)) (fp F 255)) \<le> 255"
  shows "alpha1 (optimizeAlpha8 F rgba block) \<le> alpha0 (optimizeAlpha8 F rgba block)"
proof -
  obtain A0 A1 a b where A: "A0 = to_uint F (min (max a (fp F 0)) (fp F 255))"
      "A1 = to_uint F (min (max b (fp F 0)) (fp F 255))"
    and eq: "optimizeAlpha8 F rgba block =
              (if A0 < A1 then set_alpha1 (set_alpha0 (flipIndices block) (ucast A1)) (ucast A0)
               else if A0 = A1 then set_alpha1 (set_alpha0 (zeroIndices block) (ucast A0)) (ucast A1)
               else set_alpha1 (set_alpha0 block (ucast A0)) (ucast A1))"
    using optimizeAlpha8_cases [of F rgba block] by blast
  have r: "A0 \<le> 255" "A1 \<le> 255" using range by (simp_all add: A)
  show ?thesis
    unfolding eq using r
    by (auto simp: alpha0_set_alpha0 alpha0_set_alpha1 alpha1_set_alpha1 intro!: ucast_le_small)
qed

lemma optimizeAlpha8_equal:
  fixes F :: "'f::{plus,minus,times,inverse,ord} floats"
  assumes range: "\<And>v. to_uint F (min (max v (fp F 0)) (fp F 255)) \<le> 255"
    and eq01: "alpha0 (optimizeAlpha8 F rgba block) = alpha1 (optimizeAlpha8 F rgba block)"
    and i: "i < 16"
  shows "index (optimizeAlpha8 F rgba block) i = 0"
proof -
  obtain A0 A1 a b where A: "A0 = to_uint F (min (max a (fp F 0)) (fp F 255))"
      "A1 = to_uint F (min (max b (fp F 0)) (fp F 255))"
    and eq: "optimizeAlpha8 F rgba block =
              (if A0 < A1 then set_alpha1 (set_alpha0 (flipIndices block) (ucast A1)) (ucast A0)
               else if A0 = A1 then set_alpha1 (set_alpha0 (zeroIndices block) (ucast A0)) (ucast A1)
               else set_alpha1 (set_alpha0 block (ucast A0)) (ucast A1))"
    using optimizeAlpha8_cases [of F rgba block] by blast
  have r: "A0 \<le> 255" "A1 \<le> 255" using range by (simp_all add: A)
  have "(ucast A0 :: uint8) = ucast A1"
    using eq01 unfolding eq
    by (auto simp: alpha0_set_alpha0 alpha0_set_alpha1 alpha1_set_alpha1 split: if_splits)
  then have "A0 = A1" by (rule ucast_eq_small [OF r])
  then show ?thesis
    unfolding eq using i by (simp add: index_set_alpha0 index_set_alpha1 index_zeroIndices)
qed

lemma compressDXT5A_order:
  fixes F :: "'f::{plus,minus,times,inverse,ord} floats"
  assumes range: "\<And>v. to_uint F (min (max v (fp F 0)) (fp F 255)) \<le> 255"
  shows "alpha1 (compressDXT5A F evaluatePalette rgba garbage)
           \<le> alpha0 (compressDXT5A F evaluatePalette rgba garbage)"
proof -
  obtain a0 a1 where mm: "alphaMinMax rgba = (a0, a1)" by (cases "alphaMinMax rgba")
  have le: "a1 \<le> a0" using alphaMinMax_order [of rgba] by (simp add: mm)
  define block where "block = set_alpha1 (set_alpha0 garbage
      (word_of_int (uint a0 - cdiv (uint a0 - uint a1) 34)))
      (word_of_int (uint a1 + cdiv (uint a0 - uint a1) 34))"
  define b0 where "b0 = snd (computeAlphaIndices evaluatePalette rgba block)"
  have "alpha1 block \<le> alpha0 block"
    unfolding block_def alpha0_set_alpha1 alpha1_set_alpha1 alpha0_set_alpha0
    by (rule init_order [OF le])
  then have "alpha1 b0 \<le> alpha0 b0"
    by (simp add: b0_def computeAlphaIndices_fields)
  moreover have "alpha1 (snd (computeAlphaIndices evaluatePalette rgba (optimizeAlpha8 F rgba b)))
       \<le> alpha0 (snd (computeAlphaIndices evaluatePalette rgba (optimizeAlpha8 F rgba b)))" for b
    by (simp add: computeAlphaIndices_fields optimizeAlpha8_order [OF range])
  ultimately have "alpha1 (fst (alphaLoop F evaluatePalette rgba b0
        (fst (computeAlphaIndices evaluatePalette rgba block)) b0 [] 0))
      \<le> alpha0 (fst (alphaLoop F evaluatePalette rgba b0
        (fst (computeAlphaIndices evaluatePalette rgba block)) b0 [] 0))"
    by (rule alphaLoop_result [where Q = "\<lambda>b. alpha1 b \<le> alpha0 b"])
  then show ?thesis
    by (simp add: compressDXT5A_def compressDXT5A_run_def mm Let_def block_def b0_def)
qed

lemma exact_range: "to_uint exact (min (max v (fp exact 0)) (fp exact 255)) \<le> 255"
proof -
  define x where "x = min (max v 0) (255 :: rat)"
  have x: "0 \<le> x" "x \<le> 255" by (simp_all add: x_def)
  then have f: "0 \<le> \<lfloor>x\<rfloor>" "\<lfloor>x\<rfloor> \<le> 255" by (simp_all add: floor_le_iff le_floor_iff)
  have "uint (word_of_int \<lfloor>x\<rfloor> :: uint32) = \<lfloor>x\<rfloor>"
    unfolding uint_word_of_int_eq using f by (intro take_bit_int_eq_self) simp_all
  then have "(word_of_int \<lfloor>x\<rfloor> :: uint32) \<le> 255"
    using f by (simp add: word_le_def)
  with x show ?thesis
    by (simp add: exact_def x_def)
qed

lemma index_0: "index 0 i = 0"
  by (simp add: index_def)

lemma upt16: "[0..<16] = [0,1,2,3,4,5,6,7,8,9,10,11,12,13,14,15]"
  by (simp add: upt_rec)

lemma sums8_instance: "sums8 exact (alphaBlock (replicate 16 100)) (setIndex 0 0 1) = (15, 1, 0, 1500, 100)"
  by (simp add: sums8_def upt16 index_setIndex index_0 exact_def float8_def alphaBlock_def Let_def)


lemma optimizeAlpha8_equal_instance: "alpha0 (optimizeAlpha8 exact (alphaBlock (replicate 16 100)) (setIndex 0 0 1))
       = alpha1 (optimizeAlpha8 exact (alphaBlock (replicate 16 100)) (setIndex 0 0 1))"
  unfolding optimizeAlpha8_def denom8_def sums8_instance
  by (simp add: Let_def exact_def alpha0_set_alpha0 alpha0_set_alpha1 alpha1_set_alpha1)

text \<open>
  On a floating-point unit whose \<open>uint\<close> cast maps a value clamped to \<open>[0, 255]\<close> to at
  most 255, the block that \<open>compressDXT5A\<close> returns has \<open>alpha0 \<ge> alpha1\<close>, and so has
  every block that \<open>optimizeAlpha8\<close> returns; and when \<open>optimizeAlpha8\<close> leaves
  \<open>alpha0 = alpha1\<close>, all sixteen indices of its result are 0. The hypothesis holds where
  the casts are defined; the last section shows a block on which they are not.
\<close>

lemma compressDXT5A_endpoints_ordered:
  fixes F :: "'f::{plus,minus,times,inverse,ord} floats"
  assumes "\<And>v. to_uint F (min (max v (fp F 0)) (fp F 255)) \<le> 255"
  shows "alpha1 (compressDXT5A F evaluatePalette rgba garbage)
           \<le> alpha0 (compressDXT5A F evaluatePalette rgba garbage)
       \<and> alpha1 (optimizeAlpha8 F rgba block) \<le> alpha0 (optimizeAlpha8 F rgba block)
       \<and> (alpha0 (optimizeAlpha8 F rgba block) = alpha1 (optimizeAlpha8 F rgba block)
            \<longrightarrow> (\<forall>i<16. index (optimizeAlpha8 F rgba block) i = 0))"
  using compressDXT5A_order [OF assms] optimizeAlpha8_order [OF assms] optimizeAlpha8_equal [OF assms]
  by blast


lemma compressDXT5A_endpoints_ordered_instance:
  "alpha1 (compressDXT5A exact evaluatePalette8 (alphaBlock (replicate 16 100)) 0)
     \<le> alpha0 (compressDXT5A exact evaluatePalette8 (alphaBlock (replicate 16 100)) 0)
   \<and> alpha0 (optimizeAlpha8 exact (alphaBlock (replicate 16 100)) (setIndex 0 0 1))
       = alpha1 (optimizeAlpha8 exact (alphaBlock (replicate 16 100)) (setIndex 0 0 1))
   \<and> (3::nat) < 16
   \<and> index (optimizeAlpha8 exact (alphaBlock (replicate 16 100)) (setIndex 0 0 1)) 3 = 0"
  using optimizeAlpha8_equal_instance compressDXT5A_endpoints_ordered [OF exact_range,
        where evaluatePalette = evaluatePalette8
          and rgba = "alphaBlock (replicate 16 100)"
          and garbage = 0 and block = "setIndex 0 0 1"]
  by simp

section \<open>Quantization\<close>

subsection \<open>Packing 5:6:5\<close>

lemma bit_small:
  fixes w :: "'a::len word"
  assumes "w < 2 ^ k" "bit w n"
  shows "n < k"
proof -
  have "take_bit k w = w" using assms(1) by (simp add: take_bit_eq_mask less_mask_eq)
  then have "bit (take_bit k w) n" using assms(2) by simp
  then show ?thesis by (simp add: bit_take_bit_iff)
qed

lemma pack565:
  fixes r g b :: uint32
  assumes r: "r < 2 ^ 5" and g: "g < 2 ^ 6" and b: "b < 2 ^ 5"
  defines "w \<equiv> (ucast (push_bit 11 r OR push_bit 5 g OR b) :: uint16)"
  shows "Color16_r w = uint r" "Color16_g w = uint g" "Color16_b w = uint b"
proof -
  note small = bit_small [OF r] bit_small [OF g] bit_small [OF b]
  have u: "uint (ucast x :: uint16) = uint x" if "x < 2 ^ 6" for x :: uint32
  proof -
    have "uint x < 2 ^ 6" using that by (simp add: word_less_def)
    then have "take_bit 16 (uint x) = uint x"
      by (intro take_bit_int_eq_self) simp_all
    then show ?thesis by (simp add: unsigned_ucast_eq)
  qed
  have "(2 ^ 5 :: uint32) < 2 ^ 6" by simp
  then have r6: "r < 2 ^ 6" and b6: "b < 2 ^ 6" using r b by (blast intro: less_trans)+
  have "take_bit 5 (drop_bit 11 w) = ucast r"
    unfolding w_def
    by (rule bit_word_eqI) (auto simp: bit_simps dest: small bit_imp_le_length)
  then show "Color16_r w = uint r"
    by (simp add: Color16_r_def u [OF r6])
  have "take_bit 6 (drop_bit 5 w) = ucast g"
    unfolding w_def
    by (rule bit_word_eqI) (auto simp: bit_simps dest: small bit_imp_le_length)
  then show "Color16_g w = uint g"
    by (simp add: Color16_g_def u [OF g])
  have "take_bit 5 w = ucast b"
    unfolding w_def
    by (rule bit_word_eqI) (auto simp: bit_simps dest: small bit_imp_le_length)
  then show "Color16_b w = uint b"
    by (simp add: Color16_b_def u [OF b6])
qed


subsection \<open>Rounding in exact arithmetic\<close>

lemma uint_word_of_int_small:
  "0 \<le> k \<Longrightarrow> k < 4294967296 \<Longrightarrow> uint (word_of_int k :: uint32) = k"
  unfolding uint_word_of_int_eq by (intro take_bit_int_eq_self) simp_all

lemma quantize_exact:
  fixes m :: int and c :: rat
  assumes m: "0 \<le> m" "m < 64"
  defines "x \<equiv> clamp (c * (of_int m / 255)) 0 (of_int m)"
  shows "uint (quantize exact (of_int m) c) = \<lfloor>x + 1 / 2\<rfloor>"
    and "0 \<le> \<lfloor>x + 1 / 2\<rfloor>" and "\<lfloor>x + 1 / 2\<rfloor> \<le> m"
    and "\<bar>of_int \<lfloor>x + 1 / 2\<rfloor> - x\<bar> \<le> 1 / 2"
proof -
  have x: "0 \<le> x" "x \<le> of_int m"
    using m by (simp_all add: x_def clamp_def)
  show lo: "0 \<le> \<lfloor>x + 1 / 2\<rfloor>" using x by (simp add: le_floor_iff)
  have "x + 1 / 2 < of_int (m + 1)" using x by simp
  then have "\<lfloor>x + 1 / 2\<rfloor> < m + 1" by (simp only: floor_less_iff)
  then show hi: "\<lfloor>x + 1 / 2\<rfloor> \<le> m" by simp
  have "of_int \<lfloor>x + 1 / 2\<rfloor> \<le> x + 1 / 2" "x + 1 / 2 < of_int \<lfloor>x + 1 / 2\<rfloor> + 1"
    by linarith+
  then show "\<bar>of_int \<lfloor>x + 1 / 2\<rfloor> - x\<bar> \<le> 1 / 2" by linarith
  have "quantize exact (of_int m) c = word_of_int \<lfloor>x + 1 / 2\<rfloor>"
    using x by (simp add: quantize_def exact_def x_def)
  moreover have "\<lfloor>x + 1 / 2\<rfloor> < 4294967296" using hi m by linarith
  then have "uint (word_of_int \<lfloor>x + 1 / 2\<rfloor> :: uint32) = \<lfloor>x + 1 / 2\<rfloor>"
    by (rule uint_word_of_int_small [OF lo])
  ultimately show "uint (quantize exact (of_int m) c) = \<lfloor>x + 1 / 2\<rfloor>" by simp
qed

lemma expand_uint:
  fixes r :: uint32
  assumes "r < 2 ^ 6" "a \<le> 3"
  shows "int (unat (push_bit a r OR drop_bit b r)) = push_bit a (uint r) OR drop_bit b (uint r)"
proof -
  have r: "uint r < 2 ^ 6" using assms(1) by (simp add: word_less_def)
  have "push_bit a (uint r) < 2 ^ (6 + a)"
    using r by (simp add: push_bit_eq_mult power_add)
  also have "(2 :: int) ^ (6 + a) \<le> 2 ^ 32" using assms(2) by (intro power_increasing) simp_all
  finally have "take_bit 32 (push_bit a (uint r)) = push_bit a (uint r)"
    by (intro take_bit_int_eq_self) simp_all
  then have p: "uint (push_bit a r) = push_bit a (uint r)"
    by (simp only: unsigned_push_bit_eq len_bit0 len_num1 One_nat_def mult_2 add_Suc_right
        add_0_right numeral_Bit0) simp
  have "uint (drop_bit b r) = drop_bit b (take_bit LENGTH(32) (uint r))"
    by (rule unsigned_drop_bit_eq)
  also have "take_bit LENGTH(32) (uint r) = uint r"
    by (rule bintr_uint) simp
  finally have d: "uint (drop_bit b r) = drop_bit b (uint r)" .
  have "uint (push_bit a r OR drop_bit b r) = push_bit a (uint r) OR drop_bit b (uint r)"
    unfolding uint_or p d ..
  then show ?thesis by (simp only: uint_nat [symmetric])
qed


text \<open>
  In exact arithmetic, \<open>roundAndExpand\<close> returns a 5:6:5 word whose red and blue
  fields are integers within 1/2 of the channel scaled by \<open>31 / 255\<close> and clamped to
  \<open>[0, 31]\<close>, and whose green field is within 1/2 of the channel scaled by \<open>63 / 255\<close>
  and clamped to \<open>[0, 63]\<close> (round to nearest, after clamping); the new working value
  is the bit replication of those packed fields, \<open>(v << 3) | (v >> 2)\<close> for red and blue
  and \<open>(g << 2) | (g >> 4)\<close> for green. Binary32 arithmetic follows in the section on
  rounding in binary32.
\<close>

lemma roundAndExpand_exact:
  "case roundAndExpand exact v of
     (w, v') \<Rightarrow>
       \<bar>of_int (Color16_r w) - clamp (vx v * (31 / 255)) 0 31\<bar> \<le> 1 / 2
     \<and> \<bar>of_int (Color16_g w) - clamp (vy v * (63 / 255)) 0 63\<bar> \<le> 1 / 2
     \<and> \<bar>of_int (Color16_b w) - clamp (vz v * (31 / 255)) 0 31\<bar> \<le> 1 / 2
     \<and> vx v' = of_int (push_bit 3 (Color16_r w) OR drop_bit 2 (Color16_r w))
     \<and> vy v' = of_int (push_bit 2 (Color16_g w) OR drop_bit 4 (Color16_g w))
     \<and> vz v' = of_int (push_bit 3 (Color16_b w) OR drop_bit 2 (Color16_b w))"
proof -
  define r where "r = quantize exact 31 (vx v)"
  define g where "g = quantize exact 63 (vy v)"
  define b where "b = quantize exact 31 (vz v)"
  define w :: uint16 where "w = ucast (push_bit 11 r OR push_bit 5 g OR b)"
  note qr = quantize_exact [of 31 "vx v", simplified, folded r_def]
  note qg = quantize_exact [of 63 "vy v", simplified, folded g_def]
  note qb = quantize_exact [of 31 "vz v", simplified, folded b_def]
  have small: "r < 2 ^ 5" "g < 2 ^ 6" "b < 2 ^ 5"
    using qr(1,3) qg(1,3) qb(1,3) by (simp_all add: word_less_def)
  have small6: "r < 2 ^ 6" "b < 2 ^ 6"
    using qr(1,3) qb(1,3) by (simp_all add: word_less_def)
  have fields: "Color16_r w = uint r" "Color16_g w = uint g" "Color16_b w = uint b"
    unfolding w_def by (rule pack565 [OF small])+
  have out: "roundAndExpand exact v =
      (w, Vec (float32 exact (push_bit 3 r OR drop_bit 2 r))
              (float32 exact (push_bit 2 g OR drop_bit 4 g))
              (float32 exact (push_bit 3 b OR drop_bit 2 b)))"
    by (simp add: roundAndExpand_def Let_def r_def g_def b_def w_def)
  have fl: "float32 exact (push_bit a x OR drop_bit k x)
      = of_int (push_bit a (uint x) OR drop_bit k (uint x))" if "x < 2 ^ 6" "a \<le> 3" for x a k
  proof -
    have "float32 exact (push_bit a x OR drop_bit k x)
        = of_int (int (unat (push_bit a x OR drop_bit k x)))"
      unfolding float32_def exact_def by simp
    then show ?thesis
      by (simp only: expand_uint [OF that])
  qed
  have near: "\<bar>of_int (uint r) - clamp (vx v * (31 / 255)) 0 31\<bar> \<le> 1 / 2"
    "\<bar>of_int (uint g) - clamp (vy v * (63 / 255)) 0 63\<bar> \<le> 1 / 2"
    "\<bar>of_int (uint b) - clamp (vz v * (31 / 255)) 0 31\<bar> \<le> 1 / 2"
    using qr(4) qg(4) qb(4) by (simp_all add: qr(1) qg(1) qb(1))
  have "vx (Vec x y z) = x" "vy (Vec x y z) = y" "vz (Vec x y z) = z" for x y z :: rat
    by (simp_all add: Vec_def)
  then show ?thesis
    unfolding out prod.case fields
    using near fl [OF small6(1), of 3 2] fl [OF small(2), of 2 4] fl [OF small6(2), of 3 2]
    by simp
qed

text \<open>
  The expansion is not the linear rescale: the 5-bit value 3 expands to 24, while
  \<open>3 * 255 / 31\<close> is about 24.7.
\<close>

lemma roundAndExpand_replicates_bits:
  "roundAndExpand exact (Vec (765 / 31) 0 0) = (6144, Vec 24 0 0)"
  by code_simp


section \<open>The punch-through encoder on transparent input\<close>

subsection \<open>Fully transparent blocks\<close>

lemma computeIndices3_transparent:
  assumes "\<forall>i<16. c_a (rgba i) < 128"
  shows "computeIndices3 F rgba maxColor minColor = 0xFFFFFFFF"
proof -
  have a: "c_a (rgba i) < 128" if "i < 16" for i using assms that by simp
  show ?thesis
    unfolding computeIndices3_def Let_def upt16
    by (simp add: a)
qed

lemma extractColorBlockRGBA_transparent:
  assumes "\<forall>i<16. c_a (rgba i) = 0"
  shows "extractColorBlockRGBA F rgba = (0, [])"
proof -
  have a: "c_a (rgba i) = 0" if "i < 16" for i using assms that by simp
  show ?thesis
    unfolding extractColorBlockRGBA_def Let_def upt16
    by (simp add: a)
qed

lemma empty_box_max:
  "roundAndExpand exact (fst (insetBBox exact (selectDiagonal exact [] 0 (findMinMaxColorsBox exact [] 0))))
     = (0x1082, Vec 16 16 16)"
  by code_simp

lemma empty_box_min:
  "roundAndExpand exact (snd (insetBBox exact (selectDiagonal exact [] 0 (findMinMaxColorsBox exact [] 0))))
     = (0xEF7D, Vec 239 239 239)"
  by code_simp


lemma transparent_block_indices:
  assumes "\<forall>i<16. c_a (rgba i) = 0" "hasAlpha rgba"
  shows "indices (compressDXT1a F hasAlpha rgba d) = 0xFFFFFFFF"
proof -
  have "\<forall>i<16. c_a (rgba i) < 128" using assms(1) by simp
  then have "computeIndices3 F rgba maxColor minColor = 0xFFFFFFFF" for maxColor minColor
    by (rule computeIndices3_transparent)
  then show ?thesis
    using assms(2) unfolding compressDXT1a_def Let_def
    by (simp split: prod.splits)
qed

lemma transparent_block_exact:
  assumes "\<forall>i<16. c_a (rgba i) = 0" "hasAlpha rgba"
  shows "compressDXT1a exact hasAlpha rgba d = \<lparr>col0 = 0x1082, col1 = 0xEF7D, indices = 0xFFFFFFFF\<rparr>"
proof -
  have "\<forall>i<16. c_a (rgba i) < 128" using assms(1) by simp
  then have ix: "computeIndices3 exact rgba maxColor minColor = 0xFFFFFFFF" for maxColor minColor
    by (rule computeIndices3_transparent)
  obtain mx mn where box: "insetBBox exact (selectDiagonal exact [] 0 (findMinMaxColorsBox exact [] 0)) = (mx, mn)"
    by (cases "insetBBox exact (selectDiagonal exact [] 0 (findMinMaxColorsBox exact [] 0))")
  have r: "roundAndExpand exact mx = (0x1082, Vec 16 16 16)" "roundAndExpand exact mn = (0xEF7D, Vec 239 239 239)"
    using empty_box_max empty_box_min by (simp_all add: box)
  show ?thesis
    using assms(2) unfolding compressDXT1a_def Let_def
    by (cases d) (simp add: extractColorBlockRGBA_transparent [OF assms(1)] box r ix)
qed

text \<open>
  C7 (amended). On a block whose sixteen alphas are 0 and on which \<open>hasAlpha\<close> holds,
  \<open>compressDXT1a\<close> returns the index word \<open>0xFFFFFFFF\<close> and endpoints with
  \<open>col0 \<le> col1\<close>; in exact arithmetic these are the endpoints of the empty bounding
  box, \<open>col0 = 0x1082\<close> and \<open>col1 = 0xEF7D\<close>, whatever the colours are. On a single
  colour with alpha 0, \<open>compressDXT1a\<close> returns the index word \<open>0xFFFFFFFF\<close> and both
  endpoints 0.
\<close>

theorem compressDXT1a_transparent:
  "(c_a c = 0 \<longrightarrow>
      compressDXT1a_Color32 OMatch5 OMatch6 c d = \<lparr>col0 = 0, col1 = 0, indices = 0xFFFFFFFF\<rparr>)
   \<and> ((\<forall>i<16. c_a (rgba i) = 0) \<and> hasAlpha rgba \<longrightarrow>
        indices (compressDXT1a F hasAlpha rgba d) = 0xFFFFFFFF
      \<and> col0 (compressDXT1a F hasAlpha rgba d) \<le> col1 (compressDXT1a F hasAlpha rgba d))
   \<and> ((\<forall>i<16. c_a (rgba i) = 0) \<and> hasAlpha rgba \<longrightarrow>
        compressDXT1a exact hasAlpha rgba d = \<lparr>col0 = 0x1082, col1 = 0xEF7D, indices = 0xFFFFFFFF\<rparr>)"
proof -
  have "compressDXT1a_Color32 OMatch5 OMatch6 c d = \<lparr>col0 = 0, col1 = 0, indices = 0xFFFFFFFF\<rparr>"
    if "c_a c = 0"
    using that by (cases d) (simp add: compressDXT1a_Color32_def)
  then show ?thesis
    using transparent_block_indices [of rgba hasAlpha F d]
      compressDXT1a_order [of hasAlpha rgba F d]
      transparent_block_exact [of rgba hasAlpha d]
    by blast
qed

theorem compressDXT1a_transparent_witness:
  "c_a \<lparr>c_r = 9, c_g = 8, c_b = 7, c_a = 0\<rparr> = 0
   \<and> compressDXT1a_Color32 (\<lambda>v k. 0) (\<lambda>v k. 0) \<lparr>c_r = 9, c_g = 8, c_b = 7, c_a = 0\<rparr>
        \<lparr>col0 = 5, col1 = 3, indices = 0\<rparr> = \<lparr>col0 = 0, col1 = 0, indices = 0xFFFFFFFF\<rparr>
   \<and> c_a (alphaBlock (replicate 16 0) 7) = 0
   \<and> hasSubThresholdAlpha (alphaBlock (replicate 16 0))
   \<and> indices (compressDXT1a exact hasSubThresholdAlpha (alphaBlock (replicate 16 0))
        \<lparr>col0 = 5, col1 = 3, indices = 0\<rparr>) = 0xFFFFFFFF"
proof -
  have h1: "\<forall>i<16. c_a (alphaBlock (replicate 16 0) i) = 0"
    by (simp add: alphaBlock_def)
  have h2: "hasSubThresholdAlpha (alphaBlock (replicate 16 0))"
    by (simp add: hasSubThresholdAlpha_def alphaBlock_def upt_rec)
  show ?thesis
    using h1 h2 compressDXT1a_transparent [of "\<lparr>c_r = 9, c_g = 8, c_b = 7, c_a = 0\<rparr>"
        "\<lambda>v k. 0" "\<lambda>v k. 0" "\<lparr>col0 = 5, col1 = 3, indices = 0\<rparr>"
        "alphaBlock (replicate 16 0)" hasSubThresholdAlpha exact]
    by simp
qed

text \<open>
  C7 as stated fails for the block overload: on the block of sixteen pixels with alpha 0
  the packed endpoints are not 0.
\<close>

theorem compressDXT1a_transparent_counterexample:
  "compressDXT1a exact hasSubThresholdAlpha (alphaBlock (replicate 16 0)) \<lparr>col0 = 0, col1 = 0, indices = 0\<rparr>
     = \<lparr>col0 = 0x1082, col1 = 0xEF7D, indices = 0xFFFFFFFF\<rparr>
   \<and> (0x1082 :: uint16) \<noteq> 0 \<and> (0xEF7D :: uint16) \<noteq> 0"
proof -
  have "\<forall>i<16. c_a (alphaBlock (replicate 16 0) i) = 0"
    by (simp add: alphaBlock_def)
  moreover have "hasSubThresholdAlpha (alphaBlock (replicate 16 0))"
    by (simp add: hasSubThresholdAlpha_def alphaBlock_def upt_rec)
  ultimately show ?thesis
    by (simp add: transparent_block_exact)
qed

section \<open>Degenerate least-squares systems\<close>

subsection \<open>Zero determinant\<close>

lemma optimizeEndPoints4_guard:
  "nv_equal F (denom4 F block (indices dxtBlock)) (fp F 0) \<Longrightarrow>
     optimizeEndPoints4 F block dxtBlock = dxtBlock"
  by (simp add: optimizeEndPoints4_def Let_def split: prod.splits)

lemma sums8_endpoints: "sums8 F rgba (set_alpha1 (set_alpha0 u p) q) = sums8 F rgba u"
  by (simp add: sums8_def index_set_alpha0 index_set_alpha1)

lemma set_alpha_cong:
  assumes "\<And>i. i < 16 \<Longrightarrow> index x i = index y i"
  shows "set_alpha1 (set_alpha0 x a) b = set_alpha1 (set_alpha0 y a) b"
  by (rule AlphaBlockDXT5_eqI)
     (simp_all add: alpha0_set_alpha0 alpha0_set_alpha1 alpha1_set_alpha1
        index_set_alpha0 index_set_alpha1 assms)

lemma optimizeAlpha8_ignores_endpoints:
  "optimizeAlpha8 F rgba (set_alpha1 (set_alpha0 u p) q) = optimizeAlpha8 F rgba u"
proof -
  let ?u' = "set_alpha1 (set_alpha0 u p) q"
  have ix: "index ?u' i = index u i" for i
    by (simp add: index_set_alpha0 index_set_alpha1)
  have "set_alpha1 (set_alpha0 (flipIndices ?u') a) b = set_alpha1 (set_alpha0 (flipIndices u) a) b" for a b
    by (rule set_alpha_cong) (simp add: index_flipIndices ix)
  moreover have "set_alpha1 (set_alpha0 (zeroIndices ?u') a) b = set_alpha1 (set_alpha0 (zeroIndices u) a) b" for a b
    by (rule set_alpha_cong) (simp add: index_zeroIndices)
  moreover have "set_alpha1 (set_alpha0 ?u' a) b = set_alpha1 (set_alpha0 u a) b" for a b
    by (rule set_alpha_cong) (simp add: ix)
  ultimately show ?thesis
    unfolding optimizeAlpha8_def denom8_def sums8_endpoints Let_def
    by (simp split: prod.splits)
qed

lemma sums8_opaque: "sums8 exact (alphaBlock (replicate 16 255)) 0 = (16, 0, 0, 4080, 0)"
  by (simp add: sums8_def upt16 index_0 exact_def float8_def alphaBlock_def Let_def)

text \<open>
  C2. \<open>optimizeEndPoints4\<close> returns the block unchanged when \<open>equal(denom, 0.0f)\<close> holds
  (lemma \<open>optimizeEndPoints4_guard\<close>). \<open>optimizeAlpha8\<close> has no such test. On the fully
  opaque block, with the endpoints 255, 255 and the indices 0 that \<open>compressDXT5A\<close> passes
  to it, the determinant is 0, the source computes \<open>1.0f / 0.0f\<close>, and in exact
  arithmetic (where the quotient by 0 is 0) both endpoints become 0 instead of staying
  255. For every floating-point unit, the result of \<open>optimizeAlpha8\<close> does not depend on
  the endpoints the block held before: it never leaves them unchanged as such.
\<close>

theorem optimizeAlpha8_zero_determinant:
  "denom8 exact (alphaBlock (replicate 16 255)) (set_alpha1 (set_alpha0 0 255) 255) = 0
   \<and> nv_equal exact (denom8 exact (alphaBlock (replicate 16 255)) (set_alpha1 (set_alpha0 0 255) 255)) (fp exact 0)
   \<and> alpha0 (set_alpha1 (set_alpha0 0 255) 255) = 255
   \<and> alpha1 (set_alpha1 (set_alpha0 0 255) 255) = 255
   \<and> alpha0 (optimizeAlpha8 exact (alphaBlock (replicate 16 255)) (set_alpha1 (set_alpha0 0 255) 255)) = 0
   \<and> alpha1 (optimizeAlpha8 exact (alphaBlock (replicate 16 255)) (set_alpha1 (set_alpha0 0 255) 255)) = 0
   \<and> optimizeAlpha8 F rgba (set_alpha1 (set_alpha0 u p) q) = optimizeAlpha8 F rgba u"
proof -
  have d: "denom8 exact (alphaBlock (replicate 16 255)) (set_alpha1 (set_alpha0 0 255) 255) = 0"
    unfolding denom8_def sums8_endpoints sums8_opaque by simp
  have o: "optimizeAlpha8 exact (alphaBlock (replicate 16 255)) 0
      = set_alpha1 (set_alpha0 (zeroIndices 0) 0) 0"
    unfolding optimizeAlpha8_def denom8_def sums8_opaque
    by (simp add: Let_def exact_def)
  show ?thesis
    unfolding optimizeAlpha8_ignores_endpoints d o
    by (simp add: alpha0_set_alpha0 alpha0_set_alpha1 alpha1_set_alpha1 exact_def)
qed

text \<open>
  \<open>sameIndices\<close> as written ORs both words with \<open>~0xFFFF\<close>, which sets the 48 index
  bits of both: it holds exactly when the two blocks have the same endpoints.
\<close>

lemma sameIndices_endpoints:
  "sameIndices block0 block1 \<longleftrightarrow> alpha0 block0 = alpha0 block1 \<and> alpha1 block0 = alpha1 block1"
proof -
  have mk: "(NOT 0xFFFF :: uint64) = NOT (mask 16)" by (simp add: mask_eq_exp_minus_1)
  have bm: "bit (NOT (mask 16) :: uint64) n \<longleftrightarrow> 16 \<le> n \<and> n < 64" for n
    by (simp only: bit_not_iff bit_mask_iff possible_bit_word) auto
  have low: "bit (b OR NOT (mask 16)) n = bit b n" if "n < 16" for b :: uint64 and n
    using that by (simp only: bit_or_iff bm) simp
  have high: "bit (b OR NOT (mask 16)) n" if "16 \<le> n" "n < 64" for b :: uint64 and n
    using that by (simp only: bit_or_iff bm) simp
  have "sameIndices block0 block1 \<longleftrightarrow> (block0 OR NOT (mask 16)) = (block1 OR NOT (mask 16))"
    unfolding sameIndices_def Let_def mk ..
  also have "\<dots> \<longleftrightarrow> (\<forall>n<16. bit block0 n = bit block1 n)"
  proof
    assume "(block0 OR NOT (mask 16)) = (block1 OR NOT (mask 16))"
    then have e: "bit (block0 OR NOT (mask 16)) n = bit (block1 OR NOT (mask 16)) n" for n by simp
    show "\<forall>n<16. bit block0 n = bit block1 n"
    proof (intro allI impI)
      fix n :: nat assume "n < 16"
      then show "bit block0 n = bit block1 n" using e [of n] by (simp only: low)
    qed
  next
    assume a: "\<forall>n<16. bit block0 n = bit block1 n"
    show "(block0 OR NOT (mask 16)) = (block1 OR NOT (mask 16))"
    proof (rule bit_word_eqI)
      fix n assume n: "n < LENGTH(64)"
      show "bit (block0 OR NOT (mask 16)) n = bit (block1 OR NOT (mask 16)) n"
      proof (cases "n < 16")
        case True
        with a have "bit block0 n = bit block1 n" by simp
        with True show ?thesis by (simp only: low)
      next
        case False
        with n have "16 \<le> n" "n < 64" by simp_all
        then show ?thesis using high by blast
      qed
    qed
  qed
  also have "\<dots> \<longleftrightarrow> alpha0 block0 = alpha0 block1 \<and> alpha1 block0 = alpha1 block1"
  proof
    assume "\<forall>n<16. bit block0 n = bit block1 n"
    then have b: "bit block0 n = bit block1 n" if "n < 16" for n
      using that by simp
    have "alpha0 block0 = alpha0 block1"
      unfolding alpha0_def by (rule bit_word_eqI) (simp add: bit_simps b)
    moreover have "alpha1 block0 = alpha1 block1"
      unfolding alpha1_def by (rule bit_word_eqI) (simp add: bit_simps b)
    ultimately show "alpha0 block0 = alpha0 block1 \<and> alpha1 block0 = alpha1 block1" ..
  next
    assume a: "alpha0 block0 = alpha0 block1 \<and> alpha1 block0 = alpha1 block1"
    show "\<forall>n<16. bit block0 n = bit block1 n"
    proof (intro allI impI)
      fix n :: nat assume n: "n < 16"
      consider "n < 8" | "8 \<le> n" by linarith
      then show "bit block0 n = bit block1 n"
      proof cases
        case 1
        have "bit (alpha0 block0) n = bit (alpha0 block1) n" using a by simp
        with 1 show ?thesis by (simp add: alpha0_def bit_simps)
      next
        case 2
        have "bit (alpha1 block0) (n - 8) = bit (alpha1 block1) (n - 8)" using a by simp
        moreover have "n - 8 < 8" "8 + (n - 8) = n" using 2 n by simp_all
        ultimately show ?thesis by (simp add: alpha1_def bit_simps)
      qed
    qed
  qed
  finally show ?thesis .
qed

subsection \<open>The exit at sameIndices\<close>

lemma upt8: "[0..<8] = [0,1,2,3,4,5,6,7]"
  by (simp add: upt_rec)

lemma twoLevel_scans:
  "alphaScan (evaluatePalette8 248 7) 255 = (49, 0)"
  "alphaScan (evaluatePalette8 248 7) 0 = (49, 1)"
  "alphaScan (evaluatePalette8 255 0) 255 = (0, 0)"
  "alphaScan (evaluatePalette8 255 0) 0 = (0, 1)"
  by (simp_all add: alphaScan_def upt8 evaluatePalette8_def cdiv_def Let_def)

lemma twoLevel_minmax: "alphaMinMax twoLevelBlock = (255, 0)"
  by (simp add: alphaMinMax_def twoLevelBlock_def alphaBlock_def upt16 Let_def)

lemma twoLevel_assign:
  assumes "alpha0 u = a0" "alpha1 u = a1"
    and "alphaScan (evaluatePalette8 a0 a1) 255 = (e, 0)"
    and "alphaScan (evaluatePalette8 a0 a1) 0 = (e, 1)"
  shows "fst (computeAlphaIndices evaluatePalette8 twoLevelBlock u) = 16 * e"
    and "map (index (snd (computeAlphaIndices evaluatePalette8 twoLevelBlock u))) [0..<16]
           = [0, 0, 0, 0, 0, 0, 0, 0, 1, 1, 1, 1, 1, 1, 1, 1]"
proof -
  have b: "alphaBest evaluatePalette8 twoLevelBlock u i = (e, if i < 8 then 0 else 1)" if "i < 16" for i
  proof -
    have "c_a (twoLevelBlock i) = (if i < 8 then 255 else 0)"
      using that unfolding twoLevelBlock_def alphaBlock_def upt16
      by (auto simp: less_Suc_eq numeral_eq_Suc)
    then show ?thesis by (simp add: alphaBest_def assms)
  qed
  show "fst (computeAlphaIndices evaluatePalette8 twoLevelBlock u) = 16 * e"
    by (simp add: computeAlphaIndices_eq upt16 b)
  show "map (index (snd (computeAlphaIndices evaluatePalette8 twoLevelBlock u))) [0..<16]
           = [0, 0, 0, 0, 0, 0, 0, 0, 1, 1, 1, 1, 1, 1, 1, 1]"
    by (simp add: upt16 index_computeAlphaIndices b)
qed

lemma twoLevel_sums:
  assumes "map (index u) [0..<16] = [0, 0, 0, 0, 0, 0, 0, 0, 1, 1, 1, 1, 1, 1, 1, 1]"
  shows "sums8 exact twoLevelBlock u = (8, 8, 0, 2040, 0)"
  using assms
  by (simp add: sums8_def upt16 exact_def float8_def twoLevelBlock_def alphaBlock_def Let_def)

lemma twoLevel_refine:
  assumes "map (index u) [0..<16] = [0, 0, 0, 0, 0, 0, 0, 0, 1, 1, 1, 1, 1, 1, 1, 1]"
  shows "optimizeAlpha8 exact twoLevelBlock u = set_alpha1 (set_alpha0 u 255) 0"
  unfolding optimizeAlpha8_def denom8_def twoLevel_sums [OF assms]
  by (simp add: Let_def exact_def)


lemma twoLevelStart_fields: "alpha0 twoLevelStart = 248" "alpha1 twoLevelStart = 7"
  by (simp_all add: twoLevelStart_def computeAlphaIndices_fields alpha0_set_alpha0 alpha0_set_alpha1
      alpha1_set_alpha1)

lemma twoLevelStart_index:
  "map (index twoLevelStart) [0..<16] = [0, 0, 0, 0, 0, 0, 0, 0, 1, 1, 1, 1, 1, 1, 1, 1]"
  unfolding twoLevelStart_def
  by (rule twoLevel_assign(2) [OF _ _ twoLevel_scans(1,2)])
     (simp_all add: alpha0_set_alpha0 alpha0_set_alpha1 alpha1_set_alpha1)

lemma twoLevelStart_error:
  "fst (computeAlphaIndices evaluatePalette8 twoLevelBlock (set_alpha1 (set_alpha0 0 248) 7)) = 784"
  using twoLevel_assign(1) [OF _ _ twoLevel_scans(1,2), of "set_alpha1 (set_alpha0 0 248) 7"]
  by (simp add: alpha0_set_alpha0 alpha0_set_alpha1 alpha1_set_alpha1)

lemma twoLevelPass_eq:
  "twoLevelPass = snd (computeAlphaIndices evaluatePalette8 twoLevelBlock (set_alpha1 (set_alpha0 twoLevelStart 255) 0))"
  by (simp add: twoLevelPass_def twoLevel_refine [OF twoLevelStart_index])

lemma twoLevelPass_fields: "alpha0 twoLevelPass = 255" "alpha1 twoLevelPass = 0"
  by (simp_all add: twoLevelPass_eq computeAlphaIndices_fields alpha0_set_alpha0 alpha0_set_alpha1
      alpha1_set_alpha1)

lemma twoLevelPass_index:
  "map (index twoLevelPass) [0..<16] = [0, 0, 0, 0, 0, 0, 0, 0, 1, 1, 1, 1, 1, 1, 1, 1]"
  unfolding twoLevelPass_eq
  by (rule twoLevel_assign(2) [OF _ _ twoLevel_scans(3,4)])
     (simp_all add: alpha0_set_alpha0 alpha0_set_alpha1 alpha1_set_alpha1)

lemma twoLevel_error:
  "fst (computeAlphaIndices evaluatePalette8 twoLevelBlock (set_alpha1 (set_alpha0 u 255) 0)) = 0"
  using twoLevel_assign(1) [OF _ _ twoLevel_scans(3,4), of "set_alpha1 (set_alpha0 u 255) 0"]
  by (simp add: alpha0_set_alpha0 alpha0_set_alpha1 alpha1_set_alpha1)

lemma twoLevel_not_same: "sameIndices twoLevelPass twoLevelStart = False"
  by (simp add: sameIndices_endpoints twoLevelPass_fields twoLevelStart_fields)

text \<open>
  C3. The second exit of the loop does not test the index assignment. On the block of
  eight samples at 255 and eight at 0, \<open>compressDXT5A\<close> enters the loop with the
  endpoints 248 and 7, the indices 0 (samples at 255) and 1 (samples at 0) and the error
  \<open>16 * 49 = 784\<close>. The first pass refines the endpoints to 255 and 0 and assigns
  the same sixteen indices again, with the error 0. The new index assignment equals the
  previous best, yet \<open>sameIndices\<close> is false, because it compares the endpoints (lemma
  \<open>sameIndices_endpoints\<close>): the loop does not stop there and runs a second pass, which
  it leaves at \<open>error \<ge> besterror\<close>. All values of this run are integers that binary32
  represents exactly.
\<close>

theorem sameIndices_repeated_assignment:
  "compressDXT5A_run exact evaluatePalette8 twoLevelBlock 0
     = alphaLoop exact evaluatePalette8 twoLevelBlock twoLevelStart 784 twoLevelStart [] 0
   \<and> fst (computeAlphaIndices evaluatePalette8 twoLevelBlock (optimizeAlpha8 exact twoLevelBlock twoLevelStart)) = 0
   \<and> map (index twoLevelPass) [0..<16] = map (index twoLevelStart) [0..<16]
   \<and> sameIndices twoLevelPass twoLevelStart = False
   \<and> alphaLoop exact evaluatePalette8 twoLevelBlock twoLevelStart 784 twoLevelStart [] 0
       = alphaLoop exact evaluatePalette8 twoLevelBlock twoLevelPass 0 twoLevelPass [0] 1
   \<and> compressDXT5A_run exact evaluatePalette8 twoLevelBlock 0 = (twoLevelPass, [0], 2)"
proof -
  have run: "compressDXT5A_run exact evaluatePalette8 twoLevelBlock 0
     = alphaLoop exact evaluatePalette8 twoLevelBlock twoLevelStart 784 twoLevelStart [] 0"
    by (simp add: compressDXT5A_run_def twoLevel_minmax cdiv_def Let_def twoLevelStart_error
        twoLevelStart_def)
  have err: "fst (computeAlphaIndices evaluatePalette8 twoLevelBlock (optimizeAlpha8 exact twoLevelBlock twoLevelStart)) = 0"
    by (simp add: twoLevel_refine [OF twoLevelStart_index] twoLevel_error)
  have pass1: "alphaLoop exact evaluatePalette8 twoLevelBlock twoLevelStart 784 twoLevelStart [] 0
       = alphaLoop exact evaluatePalette8 twoLevelBlock twoLevelPass 0 twoLevelPass [0] 1"
    by (subst alphaLoop.simps)
       (simp add: Let_def err twoLevelPass_def [symmetric] twoLevel_not_same)
  have pass2: "alphaLoop exact evaluatePalette8 twoLevelBlock twoLevelPass 0 twoLevelPass [0] 1
       = (twoLevelPass, [0], 2)"
    by (subst alphaLoop.simps) (simp add: Let_def)
  show ?thesis
    by (simp only: run err pass1 pass2 twoLevelPass_index twoLevelStart_index twoLevel_not_same)
qed

section \<open>Rounding in binary32\<close>

subsection \<open>Error of one rounding\<close>

lemma expo_bounds: "0 < x \<Longrightarrow> 2 powi (expo x) \<le> x \<and> x < 2 powi (expo x + 1)"
proof (induction x rule: expo.induct)
  case (1 x)
  consider "2 \<le> x" | "x < 1" | "1 \<le> x" "x < 2" by linarith
  then show ?case
  proof cases
    case 1
    with "1.prems" have e: "expo x = expo (x / 2) + 1" by (subst expo.simps) simp
    have "2 powi expo (x / 2) \<le> x / 2 \<and> x / 2 < 2 powi (expo (x / 2) + 1)"
      using "1.IH"(1) "1.prems" 1 by simp
    then show ?thesis unfolding e by (simp add: power_int_add field_simps)
  next
    case 2
    with "1.prems" have e: "expo x = expo (x * 2) - 1" by (subst expo.simps) simp
    have "2 powi expo (x * 2) \<le> x * 2 \<and> x * 2 < 2 powi (expo (x * 2) + 1)"
      using "1.IH"(2) "1.prems" 2 by simp
    then show ?thesis unfolding e by (simp add: power_int_add power_int_diff field_simps)
  next
    case 3
    with "1.prems" have e: "expo x = 0" by (subst expo.simps) simp
    show ?thesis unfolding e using 3 by simp
  qed
qed

lemma rhe_near: "\<bar>of_int (rhe m) - m\<bar> \<le> 1 / 2"
proof -
  have "of_int \<lfloor>m\<rfloor> \<le> m" "m < of_int \<lfloor>m\<rfloor> + 1" by linarith+
  then show ?thesis by (auto simp: rhe_def Let_def)
qed

lemma rhe_int: "rhe (of_int k) = k"
  by (simp add: rhe_def)

lemma rhe_nonneg: "0 \<le> m \<Longrightarrow> 0 \<le> rhe m"
  by (auto simp: rhe_def Let_def)

lemma rhe_nonpos: "m \<le> 0 \<Longrightarrow> rhe m \<le> 0"
proof (cases "m = 0")
  case False
  assume "m \<le> 0"
  with False have "m < 0" by simp
  then have "\<lfloor>m\<rfloor> < 0" by (simp add: floor_less_iff)
  then show ?thesis by (auto simp: rhe_def Let_def)
qed (simp add: rhe_def)

lemma ulp32_pos: "0 < ulp32 x"
  by (simp add: ulp32_def)

lemma nearest32_error: "\<bar>nearest32 x - x\<bar> \<le> ulp32 x / 2"
proof -
  define u where "u = ulp32 x"
  define a where "a = of_int (rhe (x / u)) - x / u"
  have u: "0 < u" by (simp add: u_def ulp32_pos)
  have "\<bar>a\<bar> \<le> 1 / 2" unfolding a_def by (rule rhe_near)
  then have "\<bar>a\<bar> * u \<le> 1 / 2 * u" using u by (intro mult_right_mono) simp_all
  moreover have "a * u = nearest32 x - x"
    using u by (simp add: a_def nearest32_def u_def [symmetric] left_diff_distrib)
  moreover have "\<bar>a\<bar> * u = \<bar>a * u\<bar>" using u by (simp add: abs_mult)
  ultimately show ?thesis by (simp add: u_def)
qed

lemma ulp32_bound: "x \<noteq> 0 \<Longrightarrow> ulp32 x \<le> max (\<bar>x\<bar> / 2 ^ 23) (1 / 2 ^ 149)"
proof -
  assume "x \<noteq> 0"
  then have "2 powi (expo \<bar>x\<bar>) \<le> \<bar>x\<bar>" using expo_bounds [of "\<bar>x\<bar>"] by simp
  show ?thesis
  proof (cases "- 126 \<le> expo \<bar>x\<bar>")
    case True
    then have "ulp32 x = 2 powi (expo \<bar>x\<bar>) / 2 ^ 23"
      by (simp add: ulp32_def max_def power_int_diff)
    with \<open>2 powi (expo \<bar>x\<bar>) \<le> \<bar>x\<bar>\<close> show ?thesis by (simp add: divide_right_mono le_max_iff_disj)
  next
    case False
    then have "ulp32 x = 2 powi (- 149)" by (simp add: ulp32_def max_def)
    also have "\<dots> = 1 / 2 ^ 149" by (simp add: power_int_minus field_simps)
    finally show ?thesis by (simp add: le_max_iff_disj)
  qed
qed

lemma nearest32_0: "nearest32 0 = 0"
  by (simp add: nearest32_def rhe_def)

lemma nearest32_relative: "\<bar>nearest32 x - x\<bar> \<le> \<bar>x\<bar> / 2 ^ 24 + 1 / 2 ^ 150"
proof (cases "x = 0")
  case True
  then show ?thesis by (simp add: nearest32_0)
next
  case False
  have "ulp32 x \<le> \<bar>x\<bar> / 2 ^ 23 + 1 / 2 ^ 149"
    using ulp32_bound [OF False] by (auto simp: max_def split: if_splits intro: order_trans)
  with nearest32_error [of x] show ?thesis by simp
qed

lemma nearest32_nonneg: "0 \<le> x \<Longrightarrow> 0 \<le> nearest32 x"
  using ulp32_pos [of x] by (simp add: nearest32_def rhe_nonneg)

lemma nearest32_nonpos: "x \<le> 0 \<Longrightarrow> nearest32 x \<le> 0"
  using ulp32_pos [of x] by (simp add: nearest32_def rhe_nonpos mult_le_0_iff divide_le_0_iff)


lemma nearest32_approx: "\<bar>nearest32 x - x\<bar> \<le> \<bar>x\<bar> / 16777216 + 1 / 1073741824"
proof -
  have "(1 :: rat) / 2 ^ 150 \<le> 1 / 1073741824" by simp
  with nearest32_relative [of x] show ?thesis by simp
qed

lemma round32_finite: "\<bar>nearest32 x\<bar> < 2 ^ 128 \<Longrightarrow> round32 x = Fin (nearest32 x)"
  by (simp add: round32_def)

lemma nearest32_int:
  assumes "\<bar>k\<bar> < 2 ^ 24"
  shows "nearest32 (of_int k) = of_int k"
proof (cases "k = 0")
  case True
  then show ?thesis by (simp add: nearest32_0)
next
  case False
  define e where "e = expo \<bar>of_int k\<bar>"
  have pos: "(0 :: rat) < \<bar>of_int k\<bar>" using False by simp
  note b = expo_bounds [OF pos, folded e_def]
  have "(1 :: rat) \<le> \<bar>of_int k\<bar>" using False by (simp flip: of_int_abs add: of_int_1_le_iff del: of_int_abs)
  with b have "(2 :: rat) powi 0 < 2 powi (e + 1)" by simp
  then have e0: "0 \<le> e"
    using power_int_increasing [of "e + 1" 0 "2 :: rat"] by (cases "0 \<le> e") simp_all
  have "\<bar>of_int k :: rat\<bar> < 2 ^ 24" using assms by (simp flip: of_int_abs del: of_int_abs)
  with b have "(2 :: rat) powi e < 2 powi 24" by simp
  then have e1: "e < 24"
    using power_int_increasing [of 24 e "2 :: rat"] by (cases "e < 24") simp_all
  have u: "ulp32 (of_int k) = 1 / 2 ^ nat (23 - e)"
    using e0 e1 by (simp add: ulp32_def e_def [symmetric] max_def power_int_def field_simps)
  have "of_int k / ulp32 (of_int k) = (of_int (k * 2 ^ nat (23 - e)) :: rat)" by (simp add: u)
  then have "rhe (of_int k / ulp32 (of_int k)) = k * 2 ^ nat (23 - e)" by (simp only: rhe_int)
  then show ?thesis by (simp add: nearest32_def u)
qed

lemma round32_int: "\<bar>k\<bar> < 2 ^ 24 \<Longrightarrow> round32 (of_int k) = Fin (of_int k)"
proof -
  assume a: "\<bar>k\<bar> < 2 ^ 24"
  then have "\<bar>of_int k :: rat\<bar> < 2 ^ 24" by (simp flip: of_int_abs del: of_int_abs)
  also have "(2 :: rat) ^ 24 < 2 ^ 128" by simp
  finally show ?thesis by (simp add: round32_def nearest32_int [OF a])
qed

lemma round32_consts:
  "round32 0 = Fin 0" "round32 31 = Fin 31" "round32 63 = Fin 63" "round32 255 = Fin 255"
  using round32_int [of 0] round32_int [of 31] round32_int [of 63] round32_int [of 255] by simp_all

lemma round32_half: "round32 (1 / 2) = Fin (1 / 2)"
  by code_simp

lemma round32_scale:
  "round32 (31 / 255) = Fin (16316665 / 134217728)"
  "round32 (63 / 255) = Fin (16579837 / 67108864)"
  by code_simp+

subsection \<open>Quantization of a channel\<close>

lemma clamp_Fin: "0 \<le> n \<Longrightarrow> clamp (Fin a) (Fin 0) (Fin n) = Fin (clamp a 0 n)"
  by (auto simp: clamp_def min_def max_def less_eq_binary32_def)

lemma clamp_PInf: "clamp PInf (Fin 0) (Fin n) = Fin n"
  by (simp add: clamp_def min_def max_def less_eq_binary32_def)

lemma clamp_NInf: "0 \<le> n \<Longrightarrow> clamp NInf (Fin 0) (Fin n) = Fin 0"
  by (simp add: clamp_def min_def max_def less_eq_binary32_def)

lemma clamp_lipschitz:
  fixes a b n :: rat
  shows "0 \<le> n \<Longrightarrow> \<bar>clamp a 0 n - clamp b 0 n\<bar> \<le> \<bar>a - b\<bar>"
  by (auto simp: clamp_def min_def max_def)

lemma scale_ieee32:
  fixes n :: int and k c :: rat
  assumes n: "1 \<le> n" "n \<le> 63"
    and k: "\<bar>k - of_int n / 255\<bar> \<le> 1 / 67108864"
  shows "\<exists>q. clamp (round32 (c * k)) (Fin 0) (Fin (of_int n)) = Fin q \<and> 0 \<le> q \<and> q \<le> of_int n
           \<and> \<bar>q - clamp (c * (of_int n / 255)) 0 (of_int n)\<bar> \<le> 1 / 131072 + 1 / 1073741824"
proof -
  define m :: rat where "m = of_int n"
  have m: "1 \<le> m" "m \<le> 63" using n by (simp_all add: m_def)
  have klo: "m / 255 - 1 / 67108864 \<le> k" and khi: "k \<le> m / 255 + 1 / 67108864"
    using k unfolding m_def by linarith+
  have kpos: "0 < k" using klo m by simp
  define t where "t = c * k"
  define s where "s = clamp (c * (m / 255)) 0 m"
  note near = nearest32_approx [of t]
  consider (neg) "c \<le> 0" | (big) "256 \<le> c" | (mid) "0 < c" "c < 256" by linarith
  then have "\<exists>q. clamp (round32 t) (Fin 0) (Fin m) = Fin q \<and> 0 \<le> q \<and> q \<le> m
           \<and> \<bar>q - s\<bar> \<le> 1 / 131072 + 1 / 1073741824"
  proof cases
    case neg
    then have t0: "t \<le> 0" using kpos by (simp add: t_def mult_le_0_iff)
    then have n0: "nearest32 t \<le> 0" by (rule nearest32_nonpos)
    have "clamp (round32 t) (Fin 0) (Fin m) = Fin 0"
      using t0 n0 m by (simp add: round32_def clamp_NInf clamp_Fin) (simp add: clamp_def)
    moreover have "c * (m / 255) \<le> 0" using neg m by (simp add: mult_le_0_iff)
    then have "s = 0" using m by (simp add: s_def clamp_def)
    ultimately show ?thesis using m by simp
  next
    case big
    have "256 * k \<le> c * k" using big kpos by (intro mult_right_mono) simp_all
    then have tl: "m + 1 / 512 \<le> t" using klo m unfolding t_def by linarith
    then have tpos: "0 < t" using m by linarith
    then have "\<bar>t\<bar> = t" by simp
    with near have "t - t / 16777216 - 1 / 1073741824 \<le> nearest32 t" by linarith
    with tl m have nl: "m \<le> nearest32 t" by linarith
    have "clamp (round32 t) (Fin 0) (Fin m) = Fin m"
      using tpos nl m by (simp add: round32_def clamp_PInf clamp_Fin) (simp add: clamp_def)
    moreover have "256 * (m / 255) \<le> c * (m / 255)" using big m by (intro mult_right_mono) simp_all
    then have "m \<le> c * (m / 255)" using m by linarith
    then have "s = m" using m by (simp add: s_def clamp_def)
    ultimately show ?thesis using m by simp
  next
    case mid
    have "c * k \<le> 256 * k" using mid kpos by (intro mult_right_mono) simp_all
    then have th: "t < 64" using khi m unfolding t_def by linarith
    have tpos: "0 < t" using mid kpos by (simp add: t_def)
    then have "\<bar>t\<bar> = t" by simp
    with near have e1: "\<bar>nearest32 t - t\<bar> \<le> t / 16777216 + 1 / 1073741824" by simp
    with th tpos have "\<bar>nearest32 t\<bar> < 65" by linarith
    then have "\<bar>nearest32 t\<bar> < 2 ^ 128" by simp
    then have r: "round32 t = Fin (nearest32 t)" by (rule round32_finite)
    have "\<bar>c * (k - m / 255)\<bar> = c * \<bar>k - m / 255\<bar>" using mid by (simp add: abs_mult)
    also have "\<dots> \<le> 256 * (1 / 67108864)"
      using mid k unfolding m_def by (intro mult_mono) simp_all
    finally have e2: "\<bar>t - c * (m / 255)\<bar> \<le> 1 / 262144" by (simp add: t_def right_diff_distrib)
    have "\<bar>nearest32 t - c * (m / 255)\<bar> \<le> 1 / 131072 + 1 / 1073741824" using e1 e2 th by linarith
    with clamp_lipschitz [of m "nearest32 t" "c * (m / 255)"] m
    have "\<bar>clamp (nearest32 t) 0 m - s\<bar> \<le> 1 / 131072 + 1 / 1073741824" unfolding s_def by linarith
    moreover have "0 \<le> clamp (nearest32 t) 0 m" "clamp (nearest32 t) 0 m \<le> m"
      using m by (simp_all add: clamp_def)
    ultimately show ?thesis using m by (simp add: r clamp_Fin)
  qed
  then show ?thesis by (simp add: t_def s_def m_def)
qed

lemma half_ieee32:
  fixes n :: int and q s :: rat
  assumes n: "1 \<le> n" "n \<le> 63" and q: "0 \<le> q" "q \<le> of_int n"
    and s: "\<bar>q - s\<bar> \<le> 1 / 131072 + 1 / 1073741824"
  shows "\<exists>y. round32 (q + 1 / 2) = Fin y \<and> 0 \<le> \<lfloor>y\<rfloor> \<and> \<lfloor>y\<rfloor> \<le> n \<and> 0 \<le> y \<and> y < 2 ^ 32
           \<and> \<bar>of_int \<lfloor>y\<rfloor> - s\<bar> \<le> 1 / 2 + 1 / 65536"
proof -
  define y where "y = nearest32 (q + 1 / 2)"
  have qh: "q \<le> 63" using q n by (simp add: order_trans [OF q(2)])
  have "\<bar>q + 1 / 2\<bar> = q + 1 / 2" using q by simp
  with nearest32_approx [of "q + 1 / 2"]
  have e: "\<bar>y - (q + 1 / 2)\<bar> \<le> (q + 1 / 2) / 16777216 + 1 / 1073741824" by (simp add: y_def)
  define d where "d = (q + 1 / 2) / 16777216"
  have "d \<le> (63 + 1 / 2) / 16777216"
    unfolding d_def using qh by (intro divide_right_mono) simp_all
  then have "d \<le> 127 / 33554432" by simp
  with e have e': "\<bar>y - (q + 1 / 2)\<bar> \<le> 1 / 262144"
    unfolding d_def [symmetric] by linarith
  have "0 \<le> y" "y < of_int n + 1" using e' q by linarith+
  then have yb: "0 \<le> y" "y < of_int (n + 1)" by simp_all
  then have "y < 64" using n by (simp add: less_le_trans)
  with yb have "\<bar>y\<bar> < 2 ^ 128" by simp
  then have r: "round32 (q + 1 / 2) = Fin y" unfolding y_def by (rule round32_finite)
  have f0: "0 \<le> \<lfloor>y\<rfloor>" using yb by (simp add: le_floor_iff)
  have "\<lfloor>y\<rfloor> < n + 1" using yb(2) by (simp only: floor_less_iff)
  then have f1: "\<lfloor>y\<rfloor> \<le> n" by simp
  have "of_int \<lfloor>y\<rfloor> \<le> y" "y < of_int \<lfloor>y\<rfloor> + 1" by linarith+
  with e' s have "\<bar>of_int \<lfloor>y\<rfloor> - s\<bar> \<le> 1 / 2 + 1 / 65536" by linarith
  moreover have "y < 2 ^ 32" using \<open>y < 64\<close> by simp
  ultimately show ?thesis using r f0 f1 yb(1) by blast
qed


lemma quantize_ieee32:
  fixes n :: int and k c :: rat
  assumes n: "1 \<le> n" "n \<le> 63"
    and K: "round32 (of_int n / 255) = Fin k"
    and k: "\<bar>k - of_int n / 255\<bar> \<le> 1 / 67108864"
  shows "0 \<le> uint (quantize (ieee32 ub) (of_int n) (Fin c))"
    and "uint (quantize (ieee32 ub) (of_int n) (Fin c)) \<le> n"
    and "\<bar>of_int (uint (quantize (ieee32 ub) (of_int n) (Fin c))) - clamp (c * (of_int n / 255)) 0 (of_int n)\<bar>
           \<le> 1 / 2 + 1 / 65536"
proof -
  have "\<bar>n\<bar> < 2 ^ 24" using n by simp
  then have rn: "round32 (of_int n) = Fin (of_int n)" by (rule round32_int)
  have n0: "of_int n \<noteq> (0 :: rat)" using n by simp
  obtain q where q: "clamp (round32 (c * k)) (Fin 0) (Fin (of_int n)) = Fin q" "0 \<le> q" "q \<le> of_int n"
      "\<bar>q - clamp (c * (of_int n / 255)) 0 (of_int n)\<bar> \<le> 1 / 131072 + 1 / 1073741824"
    using scale_ieee32 [OF n k, of c] by blast
  obtain y where y: "round32 (q + 1 / 2) = Fin y" "0 \<le> \<lfloor>y\<rfloor>" "\<lfloor>y\<rfloor> \<le> n" "0 \<le> y" "y < 2 ^ 32"
      "\<bar>of_int \<lfloor>y\<rfloor> - clamp (c * (of_int n / 255)) 0 (of_int n)\<bar> \<le> 1 / 2 + 1 / 65536"
    using half_ieee32 [OF n q(2,3), of "clamp (c * (of_int n / 255)) 0 (of_int n)"] q(4) by auto
  have "quantize (ieee32 ub) (of_int n) (Fin c) = word_of_int \<lfloor>y\<rfloor>"
    using y(4,5)
    by (simp add: quantize_def ieee32_def rn round32_consts round32_half divide_binary32_def
        times_binary32_def plus_binary32_def K q(1) y(1))
  moreover have "\<lfloor>y\<rfloor> < 4294967296" using y(3) n by linarith
  then have "uint (word_of_int \<lfloor>y\<rfloor> :: uint32) = \<lfloor>y\<rfloor>"
    by (rule uint_word_of_int_small [OF y(2)])
  ultimately have u: "uint (quantize (ieee32 ub) (of_int n) (Fin c)) = \<lfloor>y\<rfloor>" by simp
  show "0 \<le> uint (quantize (ieee32 ub) (of_int n) (Fin c))"
    and "uint (quantize (ieee32 ub) (of_int n) (Fin c)) \<le> n"
    and "\<bar>of_int (uint (quantize (ieee32 ub) (of_int n) (Fin c))) - clamp (c * (of_int n / 255)) 0 (of_int n)\<bar>
           \<le> 1 / 2 + 1 / 65536"
    unfolding u by (fact y(2) y(3) y(6))+
qed

lemma float32_ieee32:
  fixes r :: uint32
  assumes "r < 2 ^ 6" "a \<le> 3"
  shows "float32 (ieee32 ub) (push_bit a r OR drop_bit b r)
           = Fin (of_int (push_bit a (uint r) OR drop_bit b (uint r)))"
proof -
  define e where "e = push_bit a (uint r) OR drop_bit b (uint r)"
  have r: "0 \<le> uint r" "uint r < 2 ^ 6" using assms(1) by (simp_all add: word_less_def)
  have "push_bit a (uint r) < 2 ^ (6 + a)"
    using r by (simp add: push_bit_eq_mult power_add)
  also have "(2 :: int) ^ (6 + a) \<le> 2 ^ 9" using assms(2) by (intro power_increasing) simp_all
  finally have p: "0 \<le> push_bit a (uint r)" "push_bit a (uint r) < 2 ^ 9" by simp_all
  have "drop_bit b (uint r) \<le> uint r"
    using int_div_le_self [of "uint r" "2 ^ b"] r(1) by (cases "uint r = 0") (simp_all add: drop_bit_eq_div)
  then have d: "0 \<le> drop_bit b (uint r)" "drop_bit b (uint r) < 2 ^ 9" using r by simp_all
  have e: "0 \<le> e" "e < 2 ^ 9"
    unfolding e_def using p d OR_upper [of "push_bit a (uint r)" 9 "drop_bit b (uint r)"] by simp_all
  then have "\<bar>e\<bar> < 2 ^ 24" by simp
  then have "round32 (of_int e) = Fin (of_int e)" by (rule round32_int)
  moreover have "int (unat (push_bit a r OR drop_bit b r)) = e"
    unfolding e_def by (rule expand_uint [OF assms])
  then have "(of_nat (unat (push_bit a r OR drop_bit b r)) :: rat) = of_int e"
    by (metis of_int_of_nat_eq)
  ultimately show ?thesis by (simp add: float32_def ieee32_def e_def)
qed

text \<open>
  C8. In binary32, for every endpoint with finite channels, \<open>roundAndExpand\<close> returns a
  5:6:5 word whose red and blue fields are integers within \<open>1/2 + 2^-16\<close> of the channel
  scaled by \<open>31 / 255\<close> and clamped to \<open>[0, 31]\<close>, and whose green field is within
  \<open>1/2 + 2^-16\<close> of the channel scaled by \<open>63 / 255\<close> and clamped to \<open>[0, 63]\<close>: the
  fields are the nearest integers up to the rounding of the product and of the sum
  \<open>+ 0.5f\<close>. The new working value is the bit replication of those packed fields,
  \<open>(v << 3) | (v >> 2)\<close> for red and blue and \<open>(g << 2) | (g >> 4)\<close> for green.
\<close>

theorem roundAndExpand_ieee32:
  "case roundAndExpand (ieee32 ub) (Vec (Fin x) (Fin y) (Fin z)) of
     (w, v') \<Rightarrow>
       \<bar>of_int (Color16_r w) - clamp (x * (31 / 255)) 0 31\<bar> \<le> 1 / 2 + 1 / 65536
     \<and> \<bar>of_int (Color16_g w) - clamp (y * (63 / 255)) 0 63\<bar> \<le> 1 / 2 + 1 / 65536
     \<and> \<bar>of_int (Color16_b w) - clamp (z * (31 / 255)) 0 31\<bar> \<le> 1 / 2 + 1 / 65536
     \<and> v' = Vec (Fin (of_int (push_bit 3 (Color16_r w) OR drop_bit 2 (Color16_r w))))
                (Fin (of_int (push_bit 2 (Color16_g w) OR drop_bit 4 (Color16_g w))))
                (Fin (of_int (push_bit 3 (Color16_b w) OR drop_bit 2 (Color16_b w))))"
proof -
  define r where "r = quantize (ieee32 ub) 31 (Fin x)"
  define g where "g = quantize (ieee32 ub) 63 (Fin y)"
  define b where "b = quantize (ieee32 ub) 31 (Fin z)"
  define w :: uint16 where "w = ucast (push_bit 11 r OR push_bit 5 g OR b)"
  have k31: "\<bar>16316665 / 134217728 - of_int 31 / 255\<bar> \<le> (1 :: rat) / 67108864" by simp
  have k63: "\<bar>16579837 / 67108864 - of_int 63 / 255\<bar> \<le> (1 :: rat) / 67108864" by simp
  have s31: "round32 (of_int 31 / 255) = Fin (16316665 / 134217728)"
    using round32_scale(1) by (simp only: of_int_numeral)
  have s63: "round32 (of_int 63 / 255) = Fin (16579837 / 67108864)"
    using round32_scale(2) by (simp only: of_int_numeral)
  note qr = quantize_ieee32 [OF _ _ s31 k31, of ub x, simplified, folded r_def]
  note qg = quantize_ieee32 [OF _ _ s63 k63, of ub y, simplified, folded g_def]
  note qb = quantize_ieee32 [OF _ _ s31 k31, of ub z, simplified, folded b_def]
  have small: "r < 2 ^ 5" "g < 2 ^ 6" "b < 2 ^ 5"
    using qr(2) qg(2) qb(2) by (simp_all add: word_less_def)
  have small6: "r < 2 ^ 6" "b < 2 ^ 6"
    using qr(2) qb(2) by (simp_all add: word_less_def)
  have fields: "Color16_r w = uint r" "Color16_g w = uint g" "Color16_b w = uint b"
    unfolding w_def by (rule pack565 [OF small])+
  have out: "roundAndExpand (ieee32 ub) (Vec (Fin x) (Fin y) (Fin z)) =
      (w, Vec (float32 (ieee32 ub) (push_bit 3 r OR drop_bit 2 r))
              (float32 (ieee32 ub) (push_bit 2 g OR drop_bit 4 g))
              (float32 (ieee32 ub) (push_bit 3 b OR drop_bit 2 b)))"
    by (simp add: roundAndExpand_def Let_def r_def g_def b_def w_def Vec_def)
  show ?thesis
    unfolding out prod.case fields
    using qr(3) qg(3) qb(3)
    by (simp add: float32_ieee32 [OF small6(1)] float32_ieee32 [OF small(2)] float32_ieee32 [OF small6(2)])
qed

text \<open>
  The fields are not always the nearest integers. For the channel
  \<open>8625383 / 2097152\<close>, the binary32 value \<open>0x1.0739cep+2\<close>, the product with the
  binary32 value of \<open>31 / 255\<close> is rounded to \<open>0.5\<close> exactly, the sum with \<open>0.5f\<close> is 1
  and the red field is 1, while the channel scaled by \<open>31 / 255\<close> is below \<open>1/2\<close>, nearer
  to 0.
\<close>

theorem roundAndExpand_ieee32_counterexample:
  "roundAndExpand (ieee32 (\<lambda>x. 0))
       (Vec (Fin (8625383 / 2097152)) (Fin (8625383 / 2097152)) (Fin (8625383 / 2097152)))
     = (0x0821, Vec (Fin 8) (Fin 4) (Fin 8))
   \<and> Color16_r 0x0821 = 1
   \<and> clamp ((8625383 / 2097152) * (31 / 255)) 0 31 < (1 / 2 :: rat)
   \<and> \<not> \<bar>of_int (Color16_r 0x0821) - clamp ((8625383 / 2097152) * (31 / 255)) 0 31\<bar> \<le> (1 / 2 :: rat)"
  by code_simp

section \<open>The refinement of the alpha endpoints on a uniform block\<close>

lemma optimizeAlpha8_solve8:
  "optimizeAlpha8 F rgba block =
     (case solve8 F rgba block of
        (a, b) \<Rightarrow>
          let alpha0' = to_uint F (min (max a (fp F 0)) (fp F 255));
              alpha1' = to_uint F (min (max b (fp F 0)) (fp F 255));
              (alpha0', alpha1', block) =
                (if alpha0' < alpha1' then (alpha1', alpha0', flipIndices block)
                 else if alpha0' = alpha1' then (alpha0', alpha1', zeroIndices block)
                 else (alpha0', alpha1', block));
              block = set_alpha0 block (ucast alpha0')
          in set_alpha1 block (ucast alpha1'))"
  by (simp add: optimizeAlpha8_def solve8_def Let_def split: prod.splits)









end
